theory Spec2Isabelle
  imports Complex_Main
begin

section \<open>Values of the host language\<close>

text \<open>
  A number of the source language is a double. The model keeps the value of a finite
  number as an exact rational and has the three special values beside it. Only
  integer-valued numbers get past the validation of the service, and the model does the
  arithmetic that follows on integers; doubles give the same results for every count of
  rows a table can hold (they are exact on integers below \<open>2 ^ 53\<close>).
\<close>

datatype number = Finite rat | NaN | PosInfinity | NegInfinity

text \<open>\<^verbatim>\<open>Number.isInteger(x)\<close>: a finite number without a fractional part.\<close>

fun isInteger :: "number \<Rightarrow> bool" where
  "isInteger (Finite q) = (q = of_int \<lfloor>q\<rfloor>)"
| "isInteger NaN = False"
| "isInteger PosInfinity = False"
| "isInteger NegInfinity = False"

text \<open>The comparison \<^verbatim>\<open>a < b\<close> on numbers; every comparison with NaN is false.\<close>

fun num_less :: "number \<Rightarrow> number \<Rightarrow> bool" where
  "num_less NaN b = False"
| "num_less a NaN = False"
| "num_less (Finite a) (Finite b) = (a < b)"
| "num_less a NegInfinity = False"
| "num_less NegInfinity b = True"
| "num_less PosInfinity b = False"
| "num_less a PosInfinity = True"

text \<open>\<^verbatim>\<open>a > b\<close> is \<^verbatim>\<open>b < a\<close>.\<close>

definition num_greater :: "number \<Rightarrow> number \<Rightarrow> bool" where
  "num_greater a b = num_less b a"

text \<open>Truthiness of a number: zero and NaN are falsy.\<close>

fun truthy :: "number \<Rightarrow> bool" where
  "truthy (Finite q) = (q \<noteq> 0)"
| "truthy NaN = False"
| "truthy PosInfinity = True"
| "truthy NegInfinity = True"

text \<open>The operator \<^verbatim>\<open>a || b\<close> on numbers.\<close>

definition or_else :: "number \<Rightarrow> number \<Rightarrow> number" where
  "or_else a b = (if truthy a then a else b)"

text \<open>
  The integer an integer-valued number stands for. The service reads it only after
  \<open>isInteger\<close> has held; on every other number the value 0 is never used.
\<close>

fun int_of :: "number \<Rightarrow> int" where
  "int_of (Finite q) = \<lfloor>q\<rfloor>"
| "int_of NaN = 0"
| "int_of PosInfinity = 0"
| "int_of NegInfinity = 0"

text \<open>
  Strings are sequences of code units; the model has the code units below 256, so a
  \<open>string\<close> of HOL. \<open>isWhiteSpace\<close> holds of the white space and line terminator
  code units in that range: TAB, LF, VT, FF, CR, SP and NBSP.
\<close>

definition isWhiteSpace :: "char \<Rightarrow> bool" where
  "isWhiteSpace c = ((of_char c :: nat) \<in> {9, 10, 11, 12, 13, 32, 160})"

text \<open>\<^verbatim>\<open>s.trim()\<close>: white space removed from both ends.\<close>

definition trim :: "string \<Rightarrow> string" where
  "trim s = rev (dropWhile isWhiteSpace (rev (dropWhile isWhiteSpace s)))"

text \<open>
  The regular expression \<^verbatim>\<open>/[<>{}[\]\\]/\<close>: one character class holding
  \<^verbatim>\<open>< > { } [ ] \\<close>; \<^verbatim>\<open>test\<close> holds when any character of the string is in it.
\<close>

definition specialChar :: "char \<Rightarrow> bool" where
  "specialChar c = ((of_char c :: nat) \<in> {60, 62, 123, 125, 91, 93, 92})"

definition specialChars_test :: "string \<Rightarrow> bool" where
  "specialChars_test s = list_ex specialChar s"

section \<open>Failures\<close>

datatype http_status = BAD_REQUEST | NOT_FOUND | INTERNAL_SERVER_ERROR

text \<open>
  The response of an \<^verbatim>\<open>HttpException\<close> is a string or an object with the fields
  \<^verbatim>\<open>status\<close>, \<^verbatim>\<open>error\<close> and \<^verbatim>\<open>message\<close>. The message of the object
  is a template literal with numbers in it; the model keeps its pieces, the text as it
  is written and each number as the value the source language renders.
\<close>

datatype piece = Lit string | Num int

datatype response_body = Text string | ErrorObject http_status string "piece list"

datatype http_exception = HttpException (getResponse: response_body) (getStatus: http_status)

text \<open>
  Any other error object: its \<^verbatim>\<open>code\<close> property when it has one that is a string,
  and its detail.
\<close>

record js_error =
  code :: "string option"
  detail :: string

datatype thrown = Http http_exception | Err js_error

text \<open>\<^verbatim>\<open>s.startsWith('P')\<close>\<close>

fun startsWith_P :: "string \<Rightarrow> bool" where
  "startsWith_P [] = False"
| "startsWith_P (c # cs) = (c = CHR ''P'')"

definition database_error_message :: string where
  "database_error_message = ''An error occurred while accessing the database''"

definition unexpected_error_message :: string where
  "unexpected_error_message = ''An unexpected error occurred''"

text \<open>
  \<open>handleCommonErrors\<close> never returns: the value here is the exception it throws.
  The two \<^verbatim>\<open>console.error\<close> calls write to the server's console only.
\<close>

definition handleCommonErrors :: "thrown \<Rightarrow> http_exception" where
  "handleCommonErrors error =
     (case error of
        Http e \<Rightarrow> e
      | Err e \<Rightarrow>
          (case code e of
             Some c \<Rightarrow>
               if startsWith_P c
               then HttpException (Text database_error_message) INTERNAL_SERVER_ERROR
               else HttpException (Text unexpected_error_message) INTERNAL_SERVER_ERROR
           | None \<Rightarrow> HttpException (Text unexpected_error_message) INTERNAL_SERVER_ERROR))"

section \<open>Validation\<close>

text \<open>Each validator returns the exception it throws, or \<open>None\<close> when it returns normally.\<close>

definition validatePageParams :: "number \<Rightarrow> number \<Rightarrow> http_exception option" where
  "validatePageParams page pageSize =
     (if \<not> isInteger page \<or> num_less page (Finite 1)
      then Some (HttpException (Text ''Page number must be a positive integer'') BAD_REQUEST)
      else if \<not> isInteger pageSize \<or> num_less pageSize (Finite 1)
                \<or> num_greater pageSize (Finite 1000)
      then Some (HttpException (Text ''Page size must be an integer between 1 and 1000'')
                   BAD_REQUEST)
      else None)"

definition validateKeyword :: "string \<Rightarrow> http_exception option" where
  "validateKeyword keyword =
     (if keyword = [] \<or> length (trim keyword) = 0
      then Some (HttpException (Text ''Search keyword cannot be empty'') BAD_REQUEST)
      else let trimmedKeyword = trim keyword in
        if length trimmedKeyword < 2
        then Some (HttpException (Text ''Search keyword must be at least 2 characters long'')
                     BAD_REQUEST)
        else if length trimmedKeyword > 30
        then Some (HttpException (Text ''Search keyword cannot exceed 30 characters'')
                     BAD_REQUEST)
        else if specialChars_test trimmedKeyword
        then Some (HttpException (Text ''Search keyword contains invalid characters'')
                     BAD_REQUEST)
        else None)"

definition validateUserId :: "string \<Rightarrow> http_exception option" where
  "validateUserId userId =
     (if userId = []
      then Some (HttpException (Text ''Invalid userId format'') BAD_REQUEST)
      else if length userId > 30
      then Some (HttpException (Text ''UserId cannot exceed 30 characters'') BAD_REQUEST)
      else if specialChars_test userId
      then Some (HttpException (Text ''UserId contains invalid characters'') BAD_REQUEST)
      else None)"

section \<open>The record store\<close>

text \<open>
  A row of the table of users. The table definition is not part of the sources; the
  columns are those the service selects and the import script writes, and the optional
  ones are those the import script may write as null. The fields \<open>id_col\<close> and
  \<open>exp_col\<close> are the columns \<^verbatim>\<open>id\<close> and \<^verbatim>\<open>exp\<close>. Time stamps are
  milliseconds.
\<close>

record user =
  id_col :: string
  userId :: string
  nickname :: string
  level :: int
  job :: "string option"
  jobCode :: "int option"
  meso :: "int option"
  playTime :: "int option"
  exp_col :: "int option"
  createdAt :: nat
  updatedAt :: nat

text \<open>What a query returns for a row: an object with the selected columns, in order.\<close>

datatype column =
  Col_id | Col_userId | Col_nickname | Col_level | Col_job | Col_jobCode | Col_meso
  | Col_playTime | Col_exp | Col_createdAt | Col_updatedAt

datatype js_value = JsString string | JsNumber int | JsDate nat | JsNull

type_synonym js_object = "(column \<times> js_value) list"

definition nullable :: "('a \<Rightarrow> js_value) \<Rightarrow> 'a option \<Rightarrow> js_value" where
  "nullable f v = (case v of None \<Rightarrow> JsNull | Some x \<Rightarrow> f x)"

fun column_value :: "user \<Rightarrow> column \<Rightarrow> js_value" where
  "column_value u Col_id = JsString (id_col u)"
| "column_value u Col_userId = JsString (userId u)"
| "column_value u Col_nickname = JsString (nickname u)"
| "column_value u Col_level = JsNumber (level u)"
| "column_value u Col_job = nullable JsString (job u)"
| "column_value u Col_jobCode = nullable JsNumber (jobCode u)"
| "column_value u Col_meso = nullable JsNumber (meso u)"
| "column_value u Col_playTime = nullable JsNumber (playTime u)"
| "column_value u Col_exp = nullable JsNumber (exp_col u)"
| "column_value u Col_createdAt = JsDate (createdAt u)"
| "column_value u Col_updatedAt = JsDate (updatedAt u)"

text \<open>\<^verbatim>\<open>select: { c: true, ... }\<close>\<close>

definition select_columns :: "column list \<Rightarrow> user \<Rightarrow> js_object" where
  "select_columns cols u = map (\<lambda>c. (c, column_value u c)) cols"

text \<open>
  Modelled from the spec: the argument \<^verbatim>\<open>orderBy\<close> of a query of the store, which is
  not part of the sources. It is a list of columns, each ascending or descending; rows
  are compared on the first column on which they differ. Numbers and dates compare by
  size and strings by code units; null counts above every value, where a relational
  store puts it, so it comes first in a descending sort and last in an ascending one.
  \<open>ordered_before ob u v\<close> says that row \<open>u\<close> may stand before row \<open>v\<close>. The sort is an
  insertion sort that keeps rows of equal rank in the order of the table.
\<close>

datatype sort_order = Asc | Desc

fun string_less :: "string \<Rightarrow> string \<Rightarrow> bool" where
  "string_less [] [] = False"
| "string_less [] (y # ys) = True"
| "string_less (x # xs) [] = False"
| "string_less (x # xs) (y # ys) =
     ((of_char x :: nat) < of_char y \<or> (x = y \<and> string_less xs ys))"

fun value_less :: "js_value \<Rightarrow> js_value \<Rightarrow> bool" where
  "value_less (JsNumber x) (JsNumber y) = (x < y)"
| "value_less (JsDate x) (JsDate y) = (x < y)"
| "value_less (JsString x) (JsString y) = string_less x y"
| "value_less JsNull b = False"
| "value_less a JsNull = True"
| "value_less a b = False"

fun ordered_before :: "(column \<times> sort_order) list \<Rightarrow> user \<Rightarrow> user \<Rightarrow> bool" where
  "ordered_before [] u v = True"
| "ordered_before ((c, d) # ob) u v =
     (if column_value u c = column_value v c then ordered_before ob u v
      else case d of
             Asc \<Rightarrow> value_less (column_value u c) (column_value v c)
           | Desc \<Rightarrow> value_less (column_value v c) (column_value u c))"

fun insert_ordered :: "(column \<times> sort_order) list \<Rightarrow> user \<Rightarrow> user list \<Rightarrow> user list" where
  "insert_ordered ob u [] = [u]"
| "insert_ordered ob u (v # vs) =
     (if ordered_before ob u v then u # v # vs else v # insert_ordered ob u vs)"

definition orderBy :: "(column \<times> sort_order) list \<Rightarrow> user list \<Rightarrow> user list" where
  "orderBy ob us = foldr (insert_ordered ob) us []"

text \<open>
  Modelled from the spec: the filter \<^verbatim>\<open>{ contains: k, mode: 'insensitive' }\<close> of the
  store, a substring test that ignores the case of letters. The model folds every
  letter among its code units that has a lower case there: A to Z, and the capital
  letters of Latin-1 from 0xC0 to 0xDE (0xD7, the multiplication sign, is no letter).
\<close>

definition toLower :: "char \<Rightarrow> char" where
  "toLower c =
     (let n = (of_char c :: nat) in
      if (65 \<le> n \<and> n \<le> 90) \<or> (192 \<le> n \<and> n \<le> 222 \<and> n \<noteq> 215)
      then char_of (n + 32) else c)"

fun starts_with :: "string \<Rightarrow> string \<Rightarrow> bool" where
  "starts_with hay [] = True"
| "starts_with [] (n # ns) = False"
| "starts_with (h # hs) (n # ns) = (h = n \<and> starts_with hs ns)"

fun contains :: "string \<Rightarrow> string \<Rightarrow> bool" where
  "contains [] needle = (needle = [])"
| "contains (h # hs) needle = (starts_with (h # hs) needle \<or> contains hs needle)"

definition contains_insensitive :: "string \<Rightarrow> string \<Rightarrow> bool" where
  "contains_insensitive hay needle = contains (map toLower hay) (map toLower needle)"

text \<open>
  Modelled from the spec: the argument \<^verbatim>\<open>where\<close> of a query of the store, as far as
  the service uses it: \<^verbatim>\<open>{ c: { contains: k, mode: m } }\<close> on a string column and
  \<^verbatim>\<open>{ OR: [...] }\<close>. A query without it takes every row.
\<close>

datatype query_mode = Default | Insensitive

datatype where_input = Contains column string query_mode | OR "where_input list"

fun matches :: "where_input \<Rightarrow> user \<Rightarrow> bool" where
  "matches (Contains c k m) u =
     (case column_value u c of
        JsString s \<Rightarrow> (case m of Default \<Rightarrow> contains s k | Insensitive \<Rightarrow> contains_insensitive s k)
      | _ \<Rightarrow> False)"
| "matches (OR fs) u = list_ex (\<lambda>f. matches f u) fs"

definition matches_where :: "where_input option \<Rightarrow> user \<Rightarrow> bool" where
  "matches_where wh u = (case wh of None \<Rightarrow> True | Some f \<Rightarrow> matches f u)"

text \<open>
  The state of the store: the rows of the table, the calls made so far, and for each call
  still to come whether it fails and with which error (no entry: it succeeds).
\<close>

datatype store_call = Count | FindMany | FindUnique | Delete

record store =
  rows :: "user list"
  calls :: "store_call list"
  faults :: "js_error option list"

definition access :: "store_call \<Rightarrow> store \<Rightarrow> js_error option \<times> store" where
  "access c st =
     (case faults st of
        [] \<Rightarrow> (None, st\<lparr>calls := calls st @ [c]\<rparr>)
      | f # fs \<Rightarrow> (f, st\<lparr>calls := calls st @ [c], faults := fs\<rparr>))"

text \<open>
  Modelled from the spec: the operations of the store the service calls (\<^verbatim>\<open>count\<close>,
  \<^verbatim>\<open>findMany\<close>, \<^verbatim>\<open>findUnique\<close>, \<^verbatim>\<open>delete\<close> of \<^verbatim>\<open>prisma.user\<close>), which are
  not part of the sources. \<open>findMany\<close> filters, orders, skips, takes and selects, in this
  order; a query without \<^verbatim>\<open>skip\<close> skips nothing. \<open>findUnique\<close> and \<open>delete\<close> take
  the unique key \<^verbatim>\<open>userId\<close>; \<open>delete\<close> of a key that no row has fails with the
  store's error P2025.
\<close>

definition count :: "store \<Rightarrow> (js_error + nat) \<times> store" where
  "count st =
     (case access Count st of
        (Some e, st') \<Rightarrow> (Inl e, st')
      | (None, st') \<Rightarrow> (Inr (length (rows st')), st'))"

definition findMany ::
  "where_input option \<Rightarrow> (column \<times> sort_order) list \<Rightarrow> nat \<Rightarrow> nat \<Rightarrow> column list \<Rightarrow> store
     \<Rightarrow> (js_error + js_object list) \<times> store"
where
  "findMany wh ob skip tk sel st =
     (case access FindMany st of
        (Some e, st') \<Rightarrow> (Inl e, st')
      | (None, st') \<Rightarrow>
          (Inr (map (select_columns sel)
                  (take tk (drop skip (orderBy ob (filter (matches_where wh) (rows st')))))),
           st'))"

definition findUnique :: "string \<Rightarrow> column list \<Rightarrow> store \<Rightarrow> (js_error + js_object option) \<times> store"
where
  "findUnique uid sel st =
     (case access FindUnique st of
        (Some e, st') \<Rightarrow> (Inl e, st')
      | (None, st') \<Rightarrow>
          (Inr (map_option (select_columns sel) (find (\<lambda>u. userId u = uid) (rows st'))),
           st'))"

definition delete :: "string \<Rightarrow> store \<Rightarrow> (js_error + unit) \<times> store" where
  "delete uid st =
     (case access Delete st of
        (Some e, st') \<Rightarrow> (Inl e, st')
      | (None, st') \<Rightarrow>
          if list_ex (\<lambda>u. userId u = uid) (rows st')
          then (Inr (), st'\<lparr>rows := filter (\<lambda>u. userId u \<noteq> uid) (rows st')\<rparr>)
          else (Inl \<lparr>code = Some ''P2025'', detail = ''Record to delete does not exist.''\<rparr>,
                st'))"

section \<open>The service\<close>

record ranked_response =
  users :: "js_object list"
  totalCount :: int
  currentPage :: int
  totalPages :: int
  hasMore :: bool

record search_response =
  searchResults :: "js_object list"
  totalCount :: int
  keyword :: string

record delete_response =
  success :: bool
  message :: string

definition buildRankedUsersResponse ::
  "js_object list \<Rightarrow> int \<Rightarrow> int \<Rightarrow> int \<Rightarrow> bool \<Rightarrow> ranked_response"
where
  "buildRankedUsersResponse us tc cp tp hm =
     \<lparr>users = us, totalCount = tc, currentPage = cp, totalPages = tp, hasMore = hm\<rparr>"

definition ranked_select :: "column list" where
  "ranked_select =
     [Col_id, Col_userId, Col_nickname, Col_level, Col_job, Col_jobCode, Col_meso,
      Col_playTime, Col_exp, Col_createdAt, Col_updatedAt]"

definition search_select :: "column list" where
  "search_select =
     [Col_userId, Col_nickname, Col_level, Col_job, Col_jobCode, Col_meso, Col_playTime,
      Col_exp, Col_createdAt]"

text \<open>
  Each operation takes the store and returns the exception it throws (\<open>Inl\<close>) or its
  result (\<open>Inr\<close>), with the store after it. The validation stands before the
  \<^verbatim>\<open>try\<close> block; what the block throws goes through \<open>handleCommonErrors\<close>.
\<close>

definition getRankedUsers ::
  "store \<Rightarrow> number \<Rightarrow> number \<Rightarrow> (http_exception + ranked_response) \<times> store"
where
  "getRankedUsers st page pageSize =
     (case validatePageParams page pageSize of
        Some e \<Rightarrow> (Inl e, st)
      | None \<Rightarrow>
          (case count st of
             (Inl err, st1) \<Rightarrow> (Inl (handleCommonErrors (Err err)), st1)
           | (Inr totalUserCount, st1) \<Rightarrow>
               if totalUserCount = 0
               then (Inr (buildRankedUsersResponse [] 0 (int_of page) 0 False), st1)
               else
                 let totalPages =
                       \<lceil>rat_of_nat totalUserCount / rat_of_int (int_of pageSize)\<rceil> in
                 if int_of page > totalPages
                 then
                   (Inl (handleCommonErrors (Http (HttpException
                      (ErrorObject NOT_FOUND ''Page not found''
                         [Lit ''Page '', Num (int_of page),
                          Lit '' does not exist. Total pages: '', Num totalPages])
                      NOT_FOUND))),
                    st1)
                 else
                   let skip = (int_of page - 1) * int_of pageSize in
                   (case findMany None [(Col_level, Desc), (Col_exp, Desc)] (nat skip)
                           (nat (int_of pageSize)) ranked_select st1 of
                      (Inl err, st2) \<Rightarrow> (Inl (handleCommonErrors (Err err)), st2)
                    | (Inr us, st2) \<Rightarrow>
                        let hasMore = (skip + int_of pageSize < int totalUserCount) in
                        (Inr (buildRankedUsersResponse us (int totalUserCount)
                                (int_of page) totalPages hasMore),
                         st2))))"

definition searchUsersByKeyword ::
  "store \<Rightarrow> string \<Rightarrow> (http_exception + search_response) \<times> store"
where
  "searchUsersByKeyword st kw =
     (case validateKeyword kw of
        Some e \<Rightarrow> (Inl e, st)
      | None \<Rightarrow>
          (case findMany
                  (Some (OR [Contains Col_userId (trim kw) Insensitive,
                             Contains Col_nickname (trim kw) Insensitive]))
                  [(Col_level, Desc), (Col_exp, Desc)] 0 50 search_select st of
             (Inl err, st1) \<Rightarrow> (Inl (handleCommonErrors (Err err)), st1)
           | (Inr results, st1) \<Rightarrow>
               (Inr \<lparr>searchResults = results, totalCount = int (length results),
                     keyword = trim kw\<rparr>,
                st1)))"

definition deleteUserByUserId ::
  "store \<Rightarrow> string \<Rightarrow> (http_exception + delete_response) \<times> store"
where
  "deleteUserByUserId st uid =
     (case validateUserId uid of
        Some e \<Rightarrow> (Inl e, st)
      | None \<Rightarrow>
          (case findUnique uid [Col_userId] st of
             (Inl err, st1) \<Rightarrow> (Inl (handleCommonErrors (Err err)), st1)
           | (Inr existingUser, st1) \<Rightarrow>
               (case existingUser of
                  None \<Rightarrow>
                    (Inl (handleCommonErrors
                            (Http (HttpException (Text ''User not found'') NOT_FOUND))),
                     st1)
                | Some found \<Rightarrow>
                    (case delete uid st1 of
                       (Inl err, st2) \<Rightarrow> (Inl (handleCommonErrors (Err err)), st2)
                     | (Inr done_unit, st2) \<Rightarrow>
                         (Inr \<lparr>success = True,
                               message = ''User with userId '' @ uid @ '' has been deleted.''\<rparr>,
                          st2)))))"

section \<open>The controller\<close>

text \<open>
  The number an integer becomes: the nearest double, the even one of two that are equally
  near, and an infinity beyond the largest double. An integer of at most 53 bits is a
  double itself; a longer one keeps its leading 53 bits, rounded; the result is a double
  when it has at most 1024 bits.
\<close>

fun bit_length :: "nat \<Rightarrow> nat" where
  "bit_length n = (if n = 0 then 0 else Suc (bit_length (n div 2)))"

declare bit_length.simps [simp del]

definition round_to_double :: "nat \<Rightarrow> nat option" where
  "round_to_double m =
     (if bit_length m \<le> 53 then Some m
      else
        let p = 2 ^ (bit_length m - 53);
            q = m div p;
            r = m mod p;
            q' = (if 2 * r > p \<or> (2 * r = p \<and> odd q) then q + 1 else q);
            v = q' * p
        in if bit_length v \<le> 1024 then Some v else None)"

definition to_number :: "int \<Rightarrow> number" where
  "to_number i =
     (case round_to_double (nat \<bar>i\<bar>) of
        Some v \<Rightarrow> Finite (of_int (if i < 0 then - int v else int v))
      | None \<Rightarrow> if i < 0 then NegInfinity else PosInfinity)"

text \<open>
  \<^verbatim>\<open>parseInt(s, 10)\<close>: leading white space is skipped, a sign is read, and the longest
  run of decimal digits that follows is the value, as a number; without a digit the
  result is NaN. A missing query parameter is \<^verbatim>\<open>undefined\<close>, which has no digit
  either.
\<close>

definition isDigit :: "char \<Rightarrow> bool" where
  "isDigit c = (48 \<le> (of_char c :: nat) \<and> (of_char c :: nat) \<le> 57)"

definition digits_value :: "string \<Rightarrow> nat" where
  "digits_value ds = foldl (\<lambda>acc c. 10 * acc + ((of_char c :: nat) - 48)) 0 ds"

definition parseInt :: "string option \<Rightarrow> number" where
  "parseInt input =
     (case input of
        None \<Rightarrow> NaN
      | Some inputString \<Rightarrow>
          let S = dropWhile isWhiteSpace inputString;
              sign = (if starts_with S ''-'' then - 1 else (1 :: int));
              S' = (if starts_with S ''+'' \<or> starts_with S ''-'' then tl S else S);
              Z = takeWhile isDigit S'
          in if Z = [] then NaN else to_number (sign * int (digits_value Z)))"

definition getRanked ::
  "store \<Rightarrow> string option \<Rightarrow> string option \<Rightarrow> (http_exception + ranked_response) \<times> store"
where
  "getRanked st page pageSize =
     (let pageNum = or_else (parseInt page) (Finite 1);
          pageSizeNum = or_else (parseInt pageSize) (Finite 10)
      in getRankedUsers st pageNum pageSizeNum)"

section \<open>Notions of the specification\<close>

text \<open>
  The specification speaks of positive integers and of integers in a range; these
  predicates say so without reference to the tests the validators make.
\<close>

definition positive_integer :: "number \<Rightarrow> bool" where
  "positive_integer x = (\<exists>n::int. x = Finite (of_int n) \<and> 1 \<le> n)"

definition integer_between :: "int \<Rightarrow> int \<Rightarrow> number \<Rightarrow> bool" where
  "integer_between lo hi x = (\<exists>n::int. x = Finite (of_int n) \<and> lo \<le> n \<and> n \<le> hi)"

text \<open>
  The characters a search keyword and an identifier must not contain:
  \<^verbatim>\<open>< > { } [ ]\<close> and the backslash. A keyword is rejected when, after trimming,
  it is empty, shorter than 2 or longer than 30, or contains one of them.
\<close>

definition forbidden_chars :: "char set" where
  "forbidden_chars =
     {CHR ''<'', CHR ''>'', CHR ''{'', CHR ''}'', CHR ''['', CHR '']'', CHR 0x5C}"

definition keyword_rejected :: "string \<Rightarrow> bool" where
  "keyword_rejected kw =
     (trim kw = [] \<or> length (trim kw) < 2 \<or> length (trim kw) > 30
      \<or> (\<exists>c\<in>set (trim kw). c \<in> forbidden_chars))"

text \<open>
  \<open>k\<close> occurs in \<open>s\<close> as a substring when the case of letters is ignored; a row matches
  a keyword when the keyword so occurs in its identifier or in its display name.
\<close>

definition substring_ignoring_case :: "string \<Rightarrow> string \<Rightarrow> bool" where
  "substring_ignoring_case k s = (\<exists>pre post. map toLower s = pre @ map toLower k @ post)"

definition keyword_matches :: "string \<Rightarrow> user \<Rightarrow> bool" where
  "keyword_matches k u =
     (substring_ignoring_case k (userId u) \<or> substring_ignoring_case k (nickname u))"

text \<open>
  The order of the ranking on rows: \<open>ranked_before u v\<close> holds when \<open>u\<close> has the higher
  level, or the same level and an experience that is not below that of \<open>v\<close>; an absent
  experience counts above every present one (\<open>exp_desc\<close>).
\<close>

fun exp_desc :: "int option \<Rightarrow> int option \<Rightarrow> bool" where
  "exp_desc None b = True"
| "exp_desc (Some x) None = False"
| "exp_desc (Some x) (Some y) = (x \<ge> y)"

definition ranked_before :: "user \<Rightarrow> user \<Rightarrow> bool" where
  "ranked_before u v =
     (level u > level v \<or> (level u = level v \<and> exp_desc (exp_col u) (exp_col v)))"

text \<open>
  Short names for the two arguments the service passes to \<open>findMany\<close>:
  \<^verbatim>\<open>orderBy: [{ level: 'desc' }, { exp: 'desc' }]\<close> and the \<^verbatim>\<open>where\<close> of the search.
\<close>

abbreviation level_exp_desc :: "(column \<times> sort_order) list" where
  "level_exp_desc \<equiv> [(Col_level, Desc), (Col_exp, Desc)]"

abbreviation keyword_where :: "string \<Rightarrow> where_input option" where
  "keyword_where k \<equiv>
     Some (OR [Contains Col_userId k Insensitive, Contains Col_nickname k Insensitive])"

text \<open>
  The level and the experience of a returned record, and the order the specification
  states for two records that follow each other in a result: the level does not go up,
  and within a level the experience does not go up either. An absent experience has no
  number to compare; \<open>exp_desc\<close> says where it stands.
\<close>

definition level_of :: "js_object \<Rightarrow> int option" where
  "level_of r = (case map_of r Col_level of Some (JsNumber l) \<Rightarrow> Some l | _ \<Rightarrow> None)"

definition exp_of :: "js_object \<Rightarrow> int option" where
  "exp_of r = (case map_of r Col_exp of Some (JsNumber x) \<Rightarrow> Some x | _ \<Rightarrow> None)"

definition ranked_desc :: "js_object \<Rightarrow> js_object \<Rightarrow> bool" where
  "ranked_desc r1 r2 =
     (case (level_of r1, level_of r2) of
        (Some l1, Some l2) \<Rightarrow> l1 > l2 \<or> (l1 = l2 \<and> exp_desc (exp_of r1) (exp_of r2))
      | _ \<Rightarrow> False)"

text \<open>
  The relation the claim on the order of results writes down, \<open>r1.level > r2.level\<close>, or
  equal levels and \<open>r1.exp >= r2.exp\<close>, for a given reading \<open>ge\<close> of the comparison of
  two experiences. \<open>number_ge\<close> compares two numbers and fails without one;
  \<open>coerced_ge\<close> is the comparison of the source language, which takes null as 0.
\<close>

definition number_ge :: "int option \<Rightarrow> int option \<Rightarrow> bool" where
  "number_ge a b = (case (a, b) of (Some x, Some y) \<Rightarrow> x \<ge> y | _ \<Rightarrow> False)"

definition coerced_ge :: "int option \<Rightarrow> int option \<Rightarrow> bool" where
  "coerced_ge a b =
     ((case a of None \<Rightarrow> 0 | Some x \<Rightarrow> x) \<ge> (case b of None \<Rightarrow> 0 | Some y \<Rightarrow> y))"

definition claimed_desc ::
  "(int option \<Rightarrow> int option \<Rightarrow> bool) \<Rightarrow> js_object \<Rightarrow> js_object \<Rightarrow> bool"
where
  "claimed_desc ge r1 r2 =
     (case (level_of r1, level_of r2) of
        (Some l1, Some l2) \<Rightarrow> l1 > l2 \<or> (l1 = l2 \<and> ge (exp_of r1) (exp_of r2))
      | _ \<Rightarrow> False)"

text \<open>
  The kinds of failure of the specification, read off an exception the service throws: the
  status tells \<open>InvalidArgument\<close> and \<open>NotFound\<close>; the two other kinds share the
  status \<open>INTERNAL_SERVER_ERROR\<close> and differ in the message only. \<open>P_coded e\<close> says
  that the error \<open>e\<close> has a \<^verbatim>\<open>code\<close> that is a string beginning with P.
  \<open>reclassified st e\<close> says that \<open>e\<close> is what \<open>handleCommonErrors\<close> makes of an
  error a call to the store \<open>st\<close> raises.
\<close>

datatype error_kind = InvalidArgument | NotFound | StorageUnavailable | Internal

definition kind_of :: "http_exception \<Rightarrow> error_kind" where
  "kind_of e =
     (case getStatus e of
        BAD_REQUEST \<Rightarrow> InvalidArgument
      | NOT_FOUND \<Rightarrow> NotFound
      | INTERNAL_SERVER_ERROR \<Rightarrow>
          if getResponse e = Text database_error_message then StorageUnavailable else Internal)"

definition P_coded :: "js_error \<Rightarrow> bool" where
  "P_coded e = (\<exists>rest. code e = Some (CHR ''P'' # rest))"

definition reclassified :: "store \<Rightarrow> http_exception \<Rightarrow> bool" where
  "reclassified st e = (\<exists>err. Some err \<in> set (faults st) \<and> e = handleCommonErrors (Err err))"

section \<open>Example stores\<close>

text \<open>
  The three records of the specification's example, A, B and C; a store without rows; a
  store with 51 rows whose identifiers all begin with \<^verbatim>\<open>id\<close>; a store with two
  rows of one level, the second without experience; a store with one row whose
  identifier begins with a capital E with an acute accent (0xC9); and stores whose first
  or second call fails with a given error.
\<close>

definition example_user :: "string \<Rightarrow> string \<Rightarrow> int \<Rightarrow> int option \<Rightarrow> user" where
  "example_user uid nick lv ex =
     \<lparr>id_col = ''pk-'' @ uid, userId = uid, nickname = nick, level = lv, job = None,
      jobCode = None, meso = None, playTime = None, exp_col = ex, createdAt = 0,
      updatedAt = 0\<rparr>"

definition example_rows :: "user list" where
  "example_rows =
     [example_user ''alpha'' ''A'' 50 (Some 100),
      example_user ''bravo'' ''B'' 50 (Some 200),
      example_user ''carol'' ''C'' 40 (Some 999)]"

definition example_store :: store where
  "example_store = \<lparr>rows = example_rows, calls = [], faults = []\<rparr>"

definition empty_store :: store where
  "empty_store = \<lparr>rows = [], calls = [], faults = []\<rparr>"

fun digits :: "nat \<Rightarrow> string" where
  "digits n =
     (if n < 10 then [char_of (48 + n)] else digits (n div 10) @ [char_of (48 + n mod 10)])"

declare digits.simps [simp del]

definition crowded_store :: store where
  "crowded_store =
     \<lparr>rows = map (\<lambda>i. example_user (''id'' @ digits i) ''N'' (int i + 1) None) [0..<51],
      calls = [], faults = []\<rparr>"

definition null_exp_store :: store where
  "null_exp_store =
     \<lparr>rows = [example_user ''bravo'' ''B'' 50 (Some 200), example_user ''delta'' ''D'' 50 None],
      calls = [], faults = []\<rparr>"

definition accented_store :: store where
  "accented_store =
     \<lparr>rows = [example_user (CHR 0xC9 # ''mile'') ''E'' 10 (Some 1)], calls = [], faults = []\<rparr>"

definition uncoded_failure :: js_error where
  "uncoded_failure = \<lparr>code = None, detail = ''Cannot reach database server''\<rparr>"

definition coded_failure :: js_error where
  "coded_failure = \<lparr>code = Some ''P1001'', detail = ''Cannot reach database server''\<rparr>"

definition failing_store :: "js_error \<Rightarrow> store" where
  "failing_store e = \<lparr>rows = example_rows, calls = [], faults = [Some e]\<rparr>"

definition late_failing_store :: "js_error \<Rightarrow> store" where
  "late_failing_store e = \<lparr>rows = example_rows, calls = [], faults = [None, Some e]\<rparr>"

section \<open>Lemmas on numbers and validation\<close>

lemma isInteger_iff: "isInteger x \<longleftrightarrow> (\<exists>n::int. x = Finite (of_int n))"
proof (cases x)
  case (Finite q)
  have "(q = of_int \<lfloor>q\<rfloor>) = (\<exists>n::int. q = of_int n)"
    by (metis floor_of_int)
  then show ?thesis using Finite by simp
qed simp_all

lemma validatePageParams_None_iff:
  "validatePageParams page pageSize = None \<longleftrightarrow>
     positive_integer page \<and> integer_between 1 1000 pageSize"
  unfolding validatePageParams_def positive_integer_def integer_between_def num_greater_def
  by (auto simp: isInteger_iff)

lemma validatePageParams_status:
  "validatePageParams page pageSize = Some e \<Longrightarrow> getStatus e = BAD_REQUEST"
  by (auto simp: validatePageParams_def split: if_splits)

lemma validatePageParams_ints:
  "1 \<le> p \<Longrightarrow> 1 \<le> s \<Longrightarrow> s \<le> 1000 \<Longrightarrow>
   validatePageParams (Finite (of_int p)) (Finite (of_int s)) = None"
  by (auto simp: validatePageParams_None_iff positive_integer_def integer_between_def)

lemma validatePageParams_first_rule:
  "\<not> positive_integer page \<Longrightarrow>
   validatePageParams page pageSize =
     Some (HttpException (Text ''Page number must be a positive integer'') BAD_REQUEST)"
  by (auto simp: validatePageParams_def positive_integer_def isInteger_iff)

lemma validatePageParams_second_rule:
  assumes "positive_integer page" and "\<not> integer_between 1 1000 pageSize"
  shows "validatePageParams page pageSize =
     Some (HttpException (Text ''Page size must be an integer between 1 and 1000'')
             BAD_REQUEST)"
proof -
  have a: "\<not> (\<not> isInteger page \<or> num_less page (Finite 1))"
    using assms(1) by (auto simp: positive_integer_def)
  have b: "validatePageParams page pageSize \<noteq> None"
    using assms by (simp add: validatePageParams_None_iff)
  show ?thesis
    using a b by (auto simp: validatePageParams_def split: if_splits)
qed

lemma ceiling_pages:
  fixes n s :: int
  assumes "0 < s"
  shows "n \<le> \<lceil>rat_of_int n / rat_of_int s\<rceil> * s"
    and "(\<lceil>rat_of_int n / rat_of_int s\<rceil> - 1) * s < n"
proof -
  let ?c = "\<lceil>rat_of_int n / rat_of_int s\<rceil>"
  let ?r = "(- n) mod s"
  have c: "?c = - ((- n) div s)" by (rule ceiling_divide_eq_div)
  have dm: "(- n) div s * s = - n - ?r"
    by (rule minus_mod_eq_div_mult [symmetric])
  have "?c * s = - ((- n) div s * s)" unfolding c by simp
  also have "\<dots> = n + ?r" unfolding dm by simp
  finally have eq: "?c * s = n + ?r" .
  have r: "0 \<le> ?r" "?r < s" using assms by simp_all
  show "n \<le> ?c * s" using eq r by simp
  have "(?c - 1) * s = ?c * s - s" by (simp add: algebra_simps)
  then show "(?c - 1) * s < n" using eq r by simp
qed

section \<open>Lemmas on strings and keywords\<close>

lemma specialChar_iff: "specialChar c \<longleftrightarrow> c \<in> forbidden_chars"
  by (cases c) (simp add: specialChar_def forbidden_chars_def)

lemma trim_Nil: "trim [] = []"
  by (simp add: trim_def)

lemma starts_with_iff: "starts_with hay needle \<longleftrightarrow> (\<exists>post. hay = needle @ post)"
  by (induction hay needle rule: starts_with.induct) auto

lemma contains_iff: "contains hay needle \<longleftrightarrow> (\<exists>pre post. hay = pre @ needle @ post)"
proof (induction hay)
  case Nil
  then show ?case by auto
next
  case (Cons h hs)
  show ?case
  proof
    assume "contains (h # hs) needle"
    then consider "starts_with (h # hs) needle" | "contains hs needle" by auto
    then show "\<exists>pre post. h # hs = pre @ needle @ post"
    proof cases
      case 1
      then obtain post where "h # hs = needle @ post" by (auto simp: starts_with_iff)
      then have "h # hs = [] @ needle @ post" by simp
      then show ?thesis by blast
    next
      case 2
      then obtain pre post where "hs = pre @ needle @ post" using Cons.IH by auto
      then have "h # hs = (h # pre) @ needle @ post" by simp
      then show ?thesis by blast
    qed
  next
    assume "\<exists>pre post. h # hs = pre @ needle @ post"
    then obtain pre post where eq: "h # hs = pre @ needle @ post" by auto
    show "contains (h # hs) needle"
    proof (cases pre)
      case Nil
      with eq have "starts_with (h # hs) needle" by (auto simp: starts_with_iff)
      then show ?thesis by simp
    next
      case (Cons a pre')
      with eq have "hs = pre' @ needle @ post" by simp
      then have "contains hs needle" using Cons.IH by auto
      then show ?thesis by simp
    qed
  qed
qed

lemma matches_keyword: "matches_where (keyword_where k) u \<longleftrightarrow> keyword_matches k u"
  by (simp add: matches_where_def keyword_matches_def contains_insensitive_def
      substring_ignoring_case_def contains_iff)

lemma validateKeyword_None_iff: "validateKeyword kw = None \<longleftrightarrow> \<not> keyword_rejected kw"
  by (auto simp: validateKeyword_def keyword_rejected_def Let_def specialChars_test_def
      list_ex_iff specialChar_iff trim_def)

lemma validateKeyword_status:
  "validateKeyword kw = Some e \<Longrightarrow> getStatus e = BAD_REQUEST"
  by (auto simp: validateKeyword_def Let_def split: if_splits)

lemma validateKeyword_messages:
  "trim kw = [] \<Longrightarrow>
     validateKeyword kw =
       Some (HttpException (Text ''Search keyword cannot be empty'') BAD_REQUEST)"
  "length (trim kw) = 1 \<Longrightarrow>
     validateKeyword kw =
       Some (HttpException (Text ''Search keyword must be at least 2 characters long'')
               BAD_REQUEST)"
  "length (trim kw) > 30 \<Longrightarrow>
     validateKeyword kw =
       Some (HttpException (Text ''Search keyword cannot exceed 30 characters'') BAD_REQUEST)"
  "2 \<le> length (trim kw) \<Longrightarrow> length (trim kw) \<le> 30 \<Longrightarrow> \<exists>c\<in>set (trim kw). c \<in> forbidden_chars \<Longrightarrow>
     validateKeyword kw =
       Some (HttpException (Text ''Search keyword contains invalid characters'') BAD_REQUEST)"
  by (auto simp: validateKeyword_def Let_def specialChars_test_def list_ex_iff specialChar_iff
      trim_Nil)

lemma validateKeyword_ok:
  assumes "2 \<le> length (trim kw)" and "length (trim kw) \<le> 30"
    and "\<forall>c\<in>set (trim kw). c \<notin> forbidden_chars"
  shows "validateKeyword kw = None"
proof -
  from assms(1) have "trim kw \<noteq> []" by auto
  with assms have "\<not> keyword_rejected kw" by (auto simp: keyword_rejected_def)
  then show ?thesis by (simp add: validateKeyword_None_iff)
qed

lemma validateUserId_ok:
  assumes "uid \<noteq> []" and "length uid \<le> 30" and "\<forall>c\<in>set uid. c \<notin> forbidden_chars"
  shows "validateUserId uid = None"
  using assms
  by (auto simp: validateUserId_def specialChars_test_def list_ex_iff specialChar_iff)

lemma validateUserId_rules:
  "uid = [] \<Longrightarrow>
     validateUserId uid = Some (HttpException (Text ''Invalid userId format'') BAD_REQUEST)"
  "uid \<noteq> [] \<Longrightarrow> length uid > 30 \<Longrightarrow>
     validateUserId uid =
       Some (HttpException (Text ''UserId cannot exceed 30 characters'') BAD_REQUEST)"
  "uid \<noteq> [] \<Longrightarrow> length uid \<le> 30 \<Longrightarrow> \<exists>c\<in>set uid. c \<in> forbidden_chars \<Longrightarrow>
     validateUserId uid =
       Some (HttpException (Text ''UserId contains invalid characters'') BAD_REQUEST)"
  by (auto simp: validateUserId_def specialChars_test_def list_ex_iff specialChar_iff)

section \<open>Lemmas on failures\<close>

lemma handleCommonErrors_Http: "handleCommonErrors (Http e) = e"
  by (simp add: handleCommonErrors_def)

lemma handleCommonErrors_Err_status:
  "getStatus (handleCommonErrors (Err e)) = INTERNAL_SERVER_ERROR"
  by (simp add: handleCommonErrors_def split: option.splits)

lemma startsWith_P_iff: "startsWith_P c \<longleftrightarrow> (\<exists>rest. c = CHR ''P'' # rest)"
  by (cases c) auto

lemma handleCommonErrors_Err:
  "handleCommonErrors (Err e) =
     (if P_coded e then HttpException (Text database_error_message) INTERNAL_SERVER_ERROR
      else HttpException (Text unexpected_error_message) INTERNAL_SERVER_ERROR)"
  by (auto simp: handleCommonErrors_def P_coded_def startsWith_P_iff split: option.splits)

lemma messages_differ: "database_error_message \<noteq> unexpected_error_message"
  by (simp add: database_error_message_def unexpected_error_message_def)

lemma kind_of_handleCommonErrors_Err:
  "kind_of (handleCommonErrors (Err e)) = (if P_coded e then StorageUnavailable else Internal)"
  using messages_differ by (auto simp: handleCommonErrors_Err kind_of_def)

section \<open>Lemmas on the store\<close>

lemma exp_desc_total: "\<not> exp_desc a b \<Longrightarrow> exp_desc b a"
  by (cases a; cases b) auto

lemma exp_desc_trans: "exp_desc a b \<Longrightarrow> exp_desc b c \<Longrightarrow> exp_desc a c"
  by (cases a; cases b; cases c) auto

lemma ranked_before_total: "\<not> ranked_before u v \<Longrightarrow> ranked_before v u"
  unfolding ranked_before_def using exp_desc_total by force

lemma ranked_before_trans: "ranked_before u v \<Longrightarrow> ranked_before v w \<Longrightarrow> ranked_before u w"
  unfolding ranked_before_def using exp_desc_trans by force

lemma ordered_before_ranking:
  "ordered_before level_exp_desc u v = ranked_before u v"
  by (cases "exp_col u"; cases "exp_col v") (auto simp: ranked_before_def nullable_def)

lemma length_insert_ordered: "length (insert_ordered ob u vs) = Suc (length vs)"
  by (induction vs) auto

lemma set_insert_ordered: "set (insert_ordered ob u vs) = insert u (set vs)"
  by (induction vs) auto

lemma sorted_insert_ordered:
  "sorted_wrt ranked_before vs \<Longrightarrow>
   sorted_wrt ranked_before (insert_ordered level_exp_desc u vs)"
proof (induction vs)
  case Nil
  then show ?case by simp
next
  case (Cons v vs)
  show ?case
  proof (cases "ranked_before u v")
    case True
    have "\<forall>w\<in>set vs. ranked_before u w"
      using Cons.prems True ranked_before_trans by auto
    with True Cons.prems show ?thesis
      by (simp add: ordered_before_ranking del: ordered_before.simps)
  next
    case False
    then have "ranked_before v u" by (rule ranked_before_total)
    with False Cons show ?thesis
      by (auto simp: set_insert_ordered ordered_before_ranking simp del: ordered_before.simps)
  qed
qed

lemma sorted_orderBy:
  "sorted_wrt ranked_before (orderBy level_exp_desc us)"
  unfolding orderBy_def
  by (induction us) (simp_all add: sorted_insert_ordered del: insert_ordered.simps)

lemma set_orderBy: "set (orderBy ob us) = set us"
  unfolding orderBy_def
  by (induction us) (simp_all add: set_insert_ordered del: insert_ordered.simps)

lemma length_orderBy: "length (orderBy ob us) = length us"
  unfolding orderBy_def
  by (induction us) (simp_all add: length_insert_ordered del: insert_ordered.simps)

lemma filter_no_where: "filter (matches_where None) us = us"
  by (simp add: matches_where_def)

lemma access_ok: "faults st = [] \<Longrightarrow> access c st = (None, st\<lparr>calls := calls st @ [c]\<rparr>)"
  by (simp add: access_def)

lemma count_ok:
  "faults st = [] \<Longrightarrow> count st = (Inr (length (rows st)), st\<lparr>calls := calls st @ [Count]\<rparr>)"
  by (simp add: count_def access_ok)

lemma findMany_ok:
  "faults st = [] \<Longrightarrow>
   findMany wh ob sk tk sel st =
     (Inr (map (select_columns sel)
             (take tk (drop sk (orderBy ob (filter (matches_where wh) (rows st)))))),
      st\<lparr>calls := calls st @ [FindMany]\<rparr>)"
  by (simp add: findMany_def access_ok)

lemma findUnique_ok:
  "faults st = [] \<Longrightarrow>
   findUnique uid sel st =
     (Inr (map_option (select_columns sel) (find (\<lambda>u. userId u = uid) (rows st))),
      st\<lparr>calls := calls st @ [FindUnique]\<rparr>)"
  by (simp add: findUnique_def access_ok)

lemma delete_ok:
  "faults st = [] \<Longrightarrow> uid \<in> userId ` set (rows st) \<Longrightarrow>
   delete uid st =
     (Inr (), st\<lparr>calls := calls st @ [Delete],
                 rows := filter (\<lambda>u. userId u \<noteq> uid) (rows st)\<rparr>)"
  by (auto simp: delete_def access_ok list_ex_iff)

lemma access_calls: "calls (snd (access c st)) = calls st @ [c]"
  by (simp add: access_def split: list.splits)

lemma access_fault:
  "faults st = Some e # fs \<Longrightarrow> fst (access c st) = Some e"
  by (simp add: access_def)

lemma access_result:
  "fst (access c st) = Some e \<Longrightarrow> Some e \<in> set (faults st)"
  by (auto simp: access_def split: list.splits)

lemma access_rows: "rows (snd (access c st)) = rows st"
  by (simp add: access_def split: list.splits)

lemma access_faults: "set (faults (snd (access c st))) \<subseteq> set (faults st)"
  by (auto simp: access_def split: list.splits)

lemma count_fault: "faults st = Some e # fs \<Longrightarrow> fst (count st) = Inl e"
  by (simp add: count_def access_def)

lemma count_Inl: "count st = (Inl e, st') \<Longrightarrow> Some e \<in> set (faults st)"
  using access_result [of Count st e]
  by (auto simp: count_def split: prod.splits option.splits)

lemma count_faults: "set (faults (snd (count st))) \<subseteq> set (faults st)"
  using access_faults [of Count st]
  by (auto simp: count_def split: prod.splits option.splits)

lemma findMany_fault: "faults st = Some e # fs \<Longrightarrow> fst (findMany wh ob sk tk sel st) = Inl e"
  by (simp add: findMany_def access_def)

lemma findMany_Inl: "findMany wh ob sk tk sel st = (Inl e, st') \<Longrightarrow> Some e \<in> set (faults st)"
  using access_result [of FindMany st e]
  by (auto simp: findMany_def split: prod.splits option.splits)

lemma findMany_calls: "calls (snd (findMany wh ob sk tk sel st)) = calls st @ [FindMany]"
  using access_calls [of FindMany st]
  by (auto simp: findMany_def split: prod.splits option.splits)

lemma findMany_keys:
  "findMany wh ob sk tk sel st = (Inr rs, st') \<Longrightarrow> r \<in> set rs \<Longrightarrow> map fst r = sel"
  by (auto simp: findMany_def select_columns_def comp_def split: prod.splits option.splits)

lemma findUnique_fault: "faults st = Some e # fs \<Longrightarrow> fst (findUnique uid sel st) = Inl e"
  by (simp add: findUnique_def access_def)

lemma findUnique_Inl: "findUnique uid sel st = (Inl e, st') \<Longrightarrow> Some e \<in> set (faults st)"
  using access_result [of FindUnique st e]
  by (auto simp: findUnique_def split: prod.splits option.splits)

lemma findUnique_faults: "set (faults (snd (findUnique uid sel st))) \<subseteq> set (faults st)"
  using access_faults [of FindUnique st]
  by (auto simp: findUnique_def split: prod.splits option.splits)

lemma findUnique_Some:
  "findUnique uid sel st = (Inr (Some r), st') \<Longrightarrow> uid \<in> userId ` set (rows st')"
proof -
  assume a: "findUnique uid sel st = (Inr (Some r), st')"
  then have st': "st' = snd (access FindUnique st)"
    by (auto simp: findUnique_def split: prod.splits option.splits)
  from a have "find (\<lambda>u. userId u = uid) (rows st') \<noteq> None"
    by (auto simp: findUnique_def split: prod.splits option.splits)
  then show ?thesis by (auto simp: find_None_iff)
qed

lemma delete_Inl:
  "delete uid st = (Inl e, st') \<Longrightarrow> uid \<in> userId ` set (rows st) \<Longrightarrow>
   Some e \<in> set (faults st)"
  using access_result [of Delete st e] access_rows [of Delete st]
  by (auto simp: delete_def list_ex_iff split: prod.splits option.splits if_splits)

lemma access_pass:
  "faults st = None # fs \<Longrightarrow>
   access c st = (None, st\<lparr>calls := calls st @ [c], faults := fs\<rparr>)"
  by (simp add: access_def)

lemma count_pass:
  "faults st = None # fs \<Longrightarrow>
   count st = (Inr (length (rows st)), st\<lparr>calls := calls st @ [Count], faults := fs\<rparr>)"
  by (simp add: count_def access_pass)

lemma findUnique_pass:
  "faults st = None # fs \<Longrightarrow>
   findUnique uid sel st =
     (Inr (map_option (select_columns sel) (find (\<lambda>u. userId u = uid) (rows st))),
      st\<lparr>calls := calls st @ [FindUnique], faults := fs\<rparr>)"
  by (simp add: findUnique_def access_pass)

lemma delete_fault:
  "faults st = Some e # fs \<Longrightarrow>
   delete uid st = (Inl e, st\<lparr>calls := calls st @ [Delete], faults := fs\<rparr>)"
  by (simp add: delete_def access_def)

lemma count_Inr: "count st = (Inr n, st') \<Longrightarrow> n = length (rows st)"
  using access_rows [of Count st]
  by (auto simp: count_def split: prod.splits option.splits)

lemma find_None_userId:
  "uid \<notin> userId ` set us \<Longrightarrow> find (\<lambda>u. userId u = uid) us = None"
  by (auto simp: find_None_iff)

lemma find_Some_userId:
  "uid \<in> userId ` set us \<Longrightarrow> \<exists>u. find (\<lambda>u. userId u = uid) us = Some u"
  by (cases "find (\<lambda>u. userId u = uid) us") (auto simp: find_None_iff)

lemma filter_out_unique:
  assumes "distinct (map userId us)" and "uid \<in> userId ` set us"
  shows "\<exists>before u after. us = before @ u # after \<and> userId u = uid
           \<and> filter (\<lambda>u. userId u \<noteq> uid) us = before @ after"
proof -
  from assms(2) obtain u where "u \<in> set us" "userId u = uid" by auto
  then obtain before after where us: "us = before @ u # after"
    by (auto simp: in_set_conv_decomp)
  with assms(1) \<open>userId u = uid\<close>
  have "\<forall>v\<in>set before. userId v \<noteq> uid" "\<forall>v\<in>set after. userId v \<noteq> uid"
    by (auto simp: image_iff)
  then have "filter (\<lambda>u. userId u \<noteq> uid) us = before @ after"
    using us \<open>userId u = uid\<close> by simp
  with us \<open>userId u = uid\<close> show ?thesis by blast
qed

section \<open>Lemmas on the order of results\<close>

lemma level_of_select:
  "Col_level \<in> set cols \<Longrightarrow> level_of (select_columns cols u) = Some (level u)"
  by (simp add: level_of_def select_columns_def map_of_map_restrict)

lemma exp_of_select:
  "Col_exp \<in> set cols \<Longrightarrow> exp_of (select_columns cols u) = exp_col u"
  by (simp add: exp_of_def select_columns_def map_of_map_restrict nullable_def split: option.splits)

lemma ranked_desc_select:
  "Col_level \<in> set cols \<Longrightarrow> Col_exp \<in> set cols \<Longrightarrow>
   ranked_desc (select_columns cols u) (select_columns cols v) = ranked_before u v"
  by (simp add: ranked_desc_def level_of_select exp_of_select ranked_before_def)

lemma findMany_ranked:
  assumes "findMany wh level_exp_desc sk tk sel st = (Inr rs, st')"
    and "Col_level \<in> set sel" and "Col_exp \<in> set sel"
  shows "successively ranked_desc rs"
proof -
  let ?us = "take tk (drop sk (orderBy level_exp_desc (filter (matches_where wh) (rows st'))))"
  have "sorted_wrt ranked_before ?us"
    by (intro sorted_wrt_take sorted_wrt_drop sorted_orderBy)
  then have "successively ranked_before ?us"
    by (rule successively_if_sorted_wrt)
  then have "successively ranked_desc (map (select_columns sel) ?us)"
    using assms(2,3) by (simp add: successively_map ranked_desc_select)
  moreover have "rs = map (select_columns sel) ?us"
    using assms(1) by (auto simp: findMany_def access_def split: list.splits option.splits)
  ultimately show ?thesis by simp
qed

section \<open>Lemmas on the listing\<close>

lemma getRankedUsers_valid_status:
  assumes "validatePageParams page pageSize = None"
    and "fst (getRankedUsers st page pageSize) = Inl e"
  shows "getStatus e \<noteq> BAD_REQUEST"
  using assms
  by (auto simp: getRankedUsers_def Let_def handleCommonErrors_Err_status
      handleCommonErrors_Http split: prod.splits sum.splits if_splits)

lemma getRankedUsers_rejected:
  assumes "validatePageParams page pageSize \<noteq> None"
  shows "\<exists>e. getRankedUsers st page pageSize = (Inl e, st) \<and> getStatus e = BAD_REQUEST"
proof -
  from assms obtain e where e: "validatePageParams page pageSize = Some e" by auto
  then have "getRankedUsers st page pageSize = (Inl e, st)" by (simp add: getRankedUsers_def)
  with e show ?thesis by (auto dest: validatePageParams_status)
qed

lemma getRankedUsers_rejected_eq:
  "validatePageParams page pageSize = Some v \<Longrightarrow> getRankedUsers st page pageSize = (Inl v, st)"
  by (simp add: getRankedUsers_def)

lemma getRankedUsers_ranked:
  assumes "fst (getRankedUsers st page pageSize) = Inr res"
  shows "successively ranked_desc (users res)"
proof -
  have sel: "Col_level \<in> set ranked_select" "Col_exp \<in> set ranked_select"
    by (simp_all add: ranked_select_def)
  from assms show ?thesis
    by (auto simp: getRankedUsers_def Let_def buildRankedUsersResponse_def
        split: option.splits prod.splits sum.splits if_splits
        dest: findMany_ranked [OF _ sel])
qed

lemma getRankedUsers_keys:
  assumes "fst (getRankedUsers st page pageSize) = Inr res" and "r \<in> set (users res)"
  shows "map fst r = ranked_select"
  using assms
  by (auto simp: getRankedUsers_def Let_def buildRankedUsersResponse_def
      split: option.splits prod.splits sum.splits if_splits dest: findMany_keys)

lemma getRankedUsers_failure:
  assumes "fst (getRankedUsers st page pageSize) = Inl e"
  shows "validatePageParams page pageSize = Some e
       \<or> e = HttpException
               (ErrorObject NOT_FOUND ''Page not found''
                  [Lit ''Page '', Num (int_of page), Lit '' does not exist. Total pages: '',
                   Num \<lceil>rat_of_nat (length (rows st)) / rat_of_int (int_of pageSize)\<rceil>])
               NOT_FOUND
       \<or> reclassified st e"
proof (cases "validatePageParams page pageSize")
  case (Some v)
  with assms show ?thesis by (simp add: getRankedUsers_def)
next
  case None
  obtain r st1 where c: "count st = (r, st1)" by (cases "count st")
  show ?thesis
  proof (cases r)
    case (Inl err)
    with c have "Some err \<in> set (faults st)" by (auto dest: count_Inl)
    moreover have "e = handleCommonErrors (Err err)"
      using assms None c Inl by (simp add: getRankedUsers_def)
    ultimately show ?thesis unfolding reclassified_def by blast
  next
    case (Inr n)
    with c have n: "n = length (rows st)" by (auto dest: count_Inr)
    have sub: "set (faults st1) \<subseteq> set (faults st)"
      using count_faults [of st] c by simp
    let ?fm = "findMany None level_exp_desc (nat ((int_of page - 1) * int_of pageSize))
                 (nat (int_of pageSize)) ranked_select st1"
    obtain r2 st2 where f: "?fm = (r2, st2)" by (cases ?fm)
    from assms None c Inr f
    consider (nf) "e = HttpException
               (ErrorObject NOT_FOUND ''Page not found''
                  [Lit ''Page '', Num (int_of page), Lit '' does not exist. Total pages: '',
                   Num \<lceil>rat_of_nat n / rat_of_int (int_of pageSize)\<rceil>])
               NOT_FOUND"
      | (fault) err where "r2 = Inl err" "e = handleCommonErrors (Err err)"
      by (auto simp: getRankedUsers_def Let_def handleCommonErrors_Http
          split: if_splits sum.splits)
    then show ?thesis
    proof cases
      case nf
      then show ?thesis unfolding n by simp
    next
      case fault
      with f have "Some err \<in> set (faults st1)" by (auto dest: findMany_Inl)
      with sub fault show ?thesis unfolding reclassified_def by blast
    qed
  qed
qed

lemma getRankedUsers_first_fault:
  "validatePageParams page pageSize = None \<Longrightarrow> faults st = Some err # fs \<Longrightarrow>
   fst (getRankedUsers st page pageSize) = Inl (handleCommonErrors (Err err))"
  using count_fault [of st err fs]
  by (auto simp: getRankedUsers_def split: prod.splits sum.splits)

lemma getRankedUsers_second_fault:
  fixes p s :: int
  assumes "1 \<le> p" and "1 \<le> s" and "s \<le> 1000"
    and "faults st = None # Some err # fs" and "rows st \<noteq> []"
    and "p \<le> \<lceil>rat_of_nat (length (rows st)) / rat_of_int s\<rceil>"
  shows "fst (getRankedUsers st (Finite (of_int p)) (Finite (of_int s))) =
           Inl (handleCommonErrors (Err err))"
proof -
  let ?st1 = "st\<lparr>calls := calls st @ [Count], faults := Some err # fs\<rparr>"
  have c: "count st = (Inr (length (rows st)), ?st1)"
    using assms(4) by (rule count_pass)
  have f: "faults ?st1 = Some err # fs" by simp
  have n0: "length (rows st) \<noteq> 0" using assms(5) by simp
  show ?thesis
    using assms(1-3,6) n0 findMany_fault [OF f, of None level_exp_desc
        "nat ((p - 1) * s)" "nat s" ranked_select]
    by (auto simp: getRankedUsers_def validatePageParams_ints c Let_def
        split: prod.splits sum.splits)
qed

lemma getRankedUsers_not_found:
  fixes p s :: int
  assumes "1 \<le> p" and "1 \<le> s" and "s \<le> 1000"
    and "faults st = []" and "rows st \<noteq> []"
    and "p > \<lceil>rat_of_nat (length (rows st)) / rat_of_int s\<rceil>"
  shows "fst (getRankedUsers st (Finite (of_int p)) (Finite (of_int s))) =
           Inl (HttpException
                  (ErrorObject NOT_FOUND ''Page not found''
                     [Lit ''Page '', Num p, Lit '' does not exist. Total pages: '',
                      Num \<lceil>rat_of_nat (length (rows st)) / rat_of_int s\<rceil>])
                  NOT_FOUND)"
proof -
  have n0: "length (rows st) \<noteq> 0" using assms(5) by simp
  show ?thesis
    using assms(1-4,6) n0
    by (simp add: getRankedUsers_def validatePageParams_ints count_ok Let_def
        handleCommonErrors_Http)
qed

section \<open>Lemmas on the search\<close>

lemma searchUsersByKeyword_rejected:
  assumes "validateKeyword kw = Some e"
  shows "searchUsersByKeyword st kw = (Inl e, st)"
  using assms by (simp add: searchUsersByKeyword_def)

lemma searchUsersByKeyword_valid:
  assumes "validateKeyword kw = None"
  shows "calls (snd (searchUsersByKeyword st kw)) = calls st @ [FindMany]"
    and "fst (searchUsersByKeyword st kw) = Inl e \<Longrightarrow> getStatus e = INTERNAL_SERVER_ERROR"
proof -
  show "calls (snd (searchUsersByKeyword st kw)) = calls st @ [FindMany]"
    using assms
      findMany_calls [of "keyword_where (trim kw)" level_exp_desc 0 50 search_select st]
    by (auto simp: searchUsersByKeyword_def split: prod.splits sum.splits)
  show "getStatus e = INTERNAL_SERVER_ERROR" if "fst (searchUsersByKeyword st kw) = Inl e"
    using that assms
    by (auto simp: searchUsersByKeyword_def handleCommonErrors_Err_status
        split: prod.splits sum.splits)
qed

lemma searchUsersByKeyword_ranked:
  assumes "fst (searchUsersByKeyword st kw) = Inr found"
  shows "successively ranked_desc (searchResults found)"
proof -
  have sel: "Col_level \<in> set search_select" "Col_exp \<in> set search_select"
    by (simp_all add: search_select_def)
  from assms show ?thesis
    by (auto simp: searchUsersByKeyword_def
        split: option.splits prod.splits sum.splits
        dest: findMany_ranked [OF _ sel])
qed

lemma searchUsersByKeyword_keys:
  assumes "fst (searchUsersByKeyword st kw) = Inr found" and "r \<in> set (searchResults found)"
  shows "map fst r = search_select"
  using assms
  by (auto simp: searchUsersByKeyword_def
      split: option.splits prod.splits sum.splits dest: findMany_keys)

lemma searchUsersByKeyword_failure:
  assumes "fst (searchUsersByKeyword st kw) = Inl e"
  shows "validateKeyword kw = Some e \<or> reclassified st e"
proof (cases "validateKeyword kw")
  case (Some v)
  with assms show ?thesis by (simp add: searchUsersByKeyword_def)
next
  case None
  let ?fm = "findMany (keyword_where (trim kw)) level_exp_desc 0 50 search_select st"
  obtain r st1 where f: "?fm = (r, st1)" by (cases ?fm)
  from assms None f obtain err where "r = Inl err" "e = handleCommonErrors (Err err)"
    by (auto simp: searchUsersByKeyword_def split: sum.splits)
  with f show ?thesis unfolding reclassified_def by (auto dest: findMany_Inl)
qed

lemma searchUsersByKeyword_first_fault:
  "validateKeyword kw = None \<Longrightarrow> faults st = Some err # fs \<Longrightarrow>
   fst (searchUsersByKeyword st kw) = Inl (handleCommonErrors (Err err))"
  using findMany_fault [of st err fs "keyword_where (trim kw)" level_exp_desc 0 50
      search_select]
  by (auto simp: searchUsersByKeyword_def split: prod.splits sum.splits)

section \<open>Lemmas on the deletion\<close>

lemma deleteUserByUserId_rejected:
  "validateUserId uid = Some v \<Longrightarrow> deleteUserByUserId st uid = (Inl v, st)"
  by (simp add: deleteUserByUserId_def)

lemma deleteUserByUserId_absent:
  assumes "validateUserId uid = None" and "faults st = []"
    and "uid \<notin> userId ` set (rows st)"
  shows "deleteUserByUserId st uid =
           (Inl (HttpException (Text ''User not found'') NOT_FOUND),
            st\<lparr>calls := calls st @ [FindUnique]\<rparr>)"
  using assms
  by (simp add: deleteUserByUserId_def findUnique_ok find_None_userId handleCommonErrors_Http)

lemma deleteUserByUserId_present:
  assumes "validateUserId uid = None" and "faults st = []"
    and "uid \<in> userId ` set (rows st)"
  shows "deleteUserByUserId st uid =
           (Inr \<lparr>success = True,
                 message = ''User with userId '' @ uid @ '' has been deleted.''\<rparr>,
            st\<lparr>calls := calls st @ [FindUnique, Delete],
               rows := filter (\<lambda>u. userId u \<noteq> uid) (rows st)\<rparr>)"
proof -
  let ?st1 = "st\<lparr>calls := calls st @ [FindUnique]\<rparr>"
  from assms(3) obtain u where u: "find (\<lambda>u. userId u = uid) (rows st) = Some u"
    using find_Some_userId by blast
  have d: "delete uid ?st1 =
      (Inr (), ?st1\<lparr>calls := calls ?st1 @ [Delete],
                 rows := filter (\<lambda>u. userId u \<noteq> uid) (rows ?st1)\<rparr>)"
    using assms(2,3) by (intro delete_ok) simp_all
  show ?thesis
    using assms(1,2) u d by (simp add: deleteUserByUserId_def findUnique_ok)
qed

lemma deleteUserByUserId_failure:
  assumes "fst (deleteUserByUserId st uid) = Inl e"
  shows "validateUserId uid = Some e
       \<or> e = HttpException (Text ''User not found'') NOT_FOUND
       \<or> reclassified st e"
proof (cases "validateUserId uid")
  case (Some v)
  with assms show ?thesis by (simp add: deleteUserByUserId_def)
next
  case None
  obtain r st1 where f: "findUnique uid [Col_userId] st = (r, st1)"
    by (cases "findUnique uid [Col_userId] st")
  show ?thesis
  proof (cases r)
    case (Inl err)
    with f have "Some err \<in> set (faults st)" by (auto dest: findUnique_Inl)
    moreover have "e = handleCommonErrors (Err err)"
      using assms None f Inl by (simp add: deleteUserByUserId_def)
    ultimately show ?thesis unfolding reclassified_def by blast
  next
    case (Inr existingUser)
    have sub: "set (faults st1) \<subseteq> set (faults st)"
      using findUnique_faults [of uid "[Col_userId]" st] f by simp
    show ?thesis
    proof (cases existingUser)
      case None2: None
      with assms None f Inr show ?thesis
        by (simp add: deleteUserByUserId_def handleCommonErrors_Http)
    next
      case (Some found)
      with f Inr have here: "uid \<in> userId ` set (rows st1)" by (auto dest: findUnique_Some)
      obtain r2 st2 where d: "delete uid st1 = (r2, st2)" by (cases "delete uid st1")
      from assms None f Inr Some d obtain err where
        "r2 = Inl err" "e = handleCommonErrors (Err err)"
        by (auto simp: deleteUserByUserId_def split: sum.splits)
      with d here have "Some err \<in> set (faults st1)" by (auto dest: delete_Inl)
      with sub \<open>e = handleCommonErrors (Err err)\<close> show ?thesis
        unfolding reclassified_def by blast
    qed
  qed
qed

lemma deleteUserByUserId_first_fault:
  "validateUserId uid = None \<Longrightarrow> faults st = Some err # fs \<Longrightarrow>
   fst (deleteUserByUserId st uid) = Inl (handleCommonErrors (Err err))"
  using findUnique_fault [of st err fs uid "[Col_userId]"]
  by (auto simp: deleteUserByUserId_def split: prod.splits sum.splits)

lemma deleteUserByUserId_second_fault:
  assumes "validateUserId uid = None" and "faults st = None # Some err # fs"
    and "uid \<in> userId ` set (rows st)"
  shows "fst (deleteUserByUserId st uid) = Inl (handleCommonErrors (Err err))"
    and "rows (snd (deleteUserByUserId st uid)) = rows st"
proof -
  let ?st1 = "st\<lparr>calls := calls st @ [FindUnique], faults := Some err # fs\<rparr>"
  from assms(3) obtain u where u: "find (\<lambda>u. userId u = uid) (rows st) = Some u"
    using find_Some_userId by blast
  have f: "faults ?st1 = Some err # fs" by simp
  have r: "deleteUserByUserId st uid =
      (Inl (handleCommonErrors (Err err)),
       ?st1\<lparr>calls := calls ?st1 @ [Delete], faults := fs\<rparr>)"
    using assms(1) u
    by (simp add: deleteUserByUserId_def findUnique_pass [OF assms(2)] delete_fault [OF f])
  show "fst (deleteUserByUserId st uid) = Inl (handleCommonErrors (Err err))"
    unfolding r by simp
  show "rows (snd (deleteUserByUserId st uid)) = rows st"
    unfolding r by simp
qed

section \<open>Lemmas on the controller and the examples\<close>

lemma getRanked_arguments:
  "getRanked st page pageSize =
     getRankedUsers st
       (if parseInt page = NaN \<or> parseInt page = Finite 0 then Finite 1 else parseInt page)
       (if parseInt pageSize = NaN \<or> parseInt pageSize = Finite 0 then Finite 10
        else parseInt pageSize)"
proof -
  have "or_else x d = (if x = NaN \<or> x = Finite 0 then d else x)" for x d
    by (cases x) (simp_all add: or_else_def)
  then show ?thesis by (simp add: getRanked_def Let_def)
qed

lemma crowded_rows_match:
  "filter (keyword_matches ''ID'') (rows crowded_store) = rows crowded_store"
proof -
  have lower: "map toLower ''ID'' = ''id''" "map toLower ''id'' = ''id''" by code_simp+
  have m: "keyword_matches ''ID'' (example_user (''id'' @ s) nick lv ex)" for s nick lv ex
  proof -
    have "map toLower (''id'' @ s) = [] @ map toLower ''ID'' @ map toLower s"
      using lower by simp
    then have "substring_ignoring_case ''ID'' (''id'' @ s)"
      unfolding substring_ignoring_case_def by blast
    then show ?thesis by (simp add: keyword_matches_def example_user_def)
  qed
  have "\<forall>u\<in>set (rows crowded_store). keyword_matches ''ID'' u"
    unfolding crowded_store_def using m by (simp del: digits.simps)
  then show ?thesis by (rule filter_True)
qed

section \<open>The claims\<close>

text \<open>
  C1. On a store that answers and has \<open>n > 0\<close> rows, for a page \<open>p \<ge> 1\<close> and a page
  size \<open>1 \<le> s \<le> 1000\<close>: the number of pages is the ceiling of \<open>n / s\<close>, the least
  number of pages of size \<open>s\<close> that hold \<open>n\<close> rows. A page beyond it fails with
  \<open>NOT_FOUND\<close>. Any other page returns the rows of the ranking from position
  \<open>(p - 1) * s\<close> on, \<open>min s (n - (p - 1) * s)\<close> of them, with the total count \<open>n\<close>,
  the page asked for, the number of pages, and \<open>hasMore = ((p - 1) * s + s < n)\<close>.
\<close>

theorem getRankedUsers_pagination:
  fixes p s :: int
  assumes "faults st = []" and "rows st \<noteq> []"
    and "1 \<le> p" and "1 \<le> s" and "s \<le> 1000"
  defines "n \<equiv> int (length (rows st))"
  defines "pages \<equiv> \<lceil>rat_of_int n / rat_of_int s\<rceil>"
  defines "result \<equiv> fst (getRankedUsers st (Finite (of_int p)) (Finite (of_int s)))"
  shows "n \<le> pages * s \<and> (pages - 1) * s < n
    \<and> (p > pages \<longrightarrow> (\<exists>e. result = Inl e \<and> getStatus e = NOT_FOUND))
    \<and> (p \<le> pages \<longrightarrow>
          (\<exists>res. result = Inr res
             \<and> users res =
                 map (select_columns ranked_select)
                   (take (nat s) (drop (nat ((p - 1) * s)) (orderBy level_exp_desc (rows st))))
             \<and> int (length (users res)) = min s (n - (p - 1) * s)
             \<and> ranked_response.totalCount res = n
             \<and> currentPage res = p
             \<and> totalPages res = pages
             \<and> hasMore res = ((p - 1) * s + s < n)))"
proof -
  have s0: "0 < s" using assms by simp
  have bounds: "n \<le> pages * s" "(pages - 1) * s < n"
    unfolding pages_def using ceiling_pages [OF s0] by simp_all
  have n0: "length (rows st) \<noteq> 0" using assms by simp
  have tot: "rat_of_nat (length (rows st)) = rat_of_int n"
    unfolding n_def by simp
  let ?st1 = "st\<lparr>calls := calls st @ [Count]\<rparr>"
  have f1: "faults ?st1 = []" using assms by simp
  have nf: "\<exists>e. result = Inl e \<and> getStatus e = NOT_FOUND" if "p > pages"
    using that assms(1,3-5) n0 unfolding result_def
    by (simp add: getRankedUsers_def validatePageParams_ints count_ok tot pages_def [symmetric]
        handleCommonErrors_Http)
  have ok: "\<exists>res. result = Inr res
             \<and> users res =
                 map (select_columns ranked_select)
                   (take (nat s) (drop (nat ((p - 1) * s)) (orderBy level_exp_desc (rows st))))
             \<and> int (length (users res)) = min s (n - (p - 1) * s)
             \<and> ranked_response.totalCount res = n
             \<and> currentPage res = p
             \<and> totalPages res = pages
             \<and> hasMore res = ((p - 1) * s + s < n)" if le: "p \<le> pages"
  proof -
    have skip: "0 \<le> (p - 1) * s" using assms by simp
    have "(p - 1) * s \<le> (pages - 1) * s" using le s0 by simp
    then have lt: "(p - 1) * s < n" using bounds by simp
    have len: "int (length (take (nat s) (drop (nat ((p - 1) * s))
                 (orderBy level_exp_desc (rows st))))) = min s (n - (p - 1) * s)"
    proof -
      define k where "k = (p - 1) * s"
      have "0 \<le> k" "k < int (length (rows st))"
        using skip lt unfolding k_def n_def by simp_all
      then have "int (min (length (rows st) - nat k) (nat s))
                   = min s (int (length (rows st)) - k)"
        using s0 by linarith
      then show ?thesis
        unfolding k_def n_def by (simp add: length_orderBy)
    qed
    have res: "result = Inr (buildRankedUsersResponse
        (map (select_columns ranked_select)
           (take (nat s) (drop (nat ((p - 1) * s)) (orderBy level_exp_desc (rows st)))))
        n p pages ((p - 1) * s + s < n))"
      using le assms(1,3-5) n0 unfolding result_def
      by (simp add: getRankedUsers_def validatePageParams_ints count_ok tot
          pages_def [symmetric] findMany_ok [OF f1] filter_no_where n_def [symmetric] Let_def)
    show ?thesis
      unfolding res buildRankedUsersResponse_def using len by simp
  qed
  from bounds nf ok show ?thesis by blast
qed

theorem getRankedUsers_pagination_witness:
  "faults example_store = [] \<and> rows example_store \<noteq> []
   \<and> (\<exists>res. fst (getRankedUsers example_store (Finite 2) (Finite 2)) = Inr res
         \<and> int (length (users res)) = 1 \<and> ranked_response.totalCount res = 3
         \<and> currentPage res = 2 \<and> totalPages res = 2 \<and> \<not> hasMore res)
   \<and> (\<exists>e. fst (getRankedUsers example_store (Finite 2) (Finite 10)) = Inl e
         \<and> getStatus e = NOT_FOUND)"
proof -
  have h: "faults example_store = []" "rows example_store \<noteq> []"
    by (simp_all add: example_store_def example_rows_def)
  have len: "length (rows example_store) = 3"
    by (simp add: example_store_def example_rows_def)
  have c2: "\<lceil>3 / 2 :: rat\<rceil> = 2" by (rule ceiling_unique) simp_all
  have c10: "\<lceil>3 / 10 :: rat\<rceil> = 1" by (rule ceiling_unique) simp_all
  have a: "\<exists>res. fst (getRankedUsers example_store (Finite 2) (Finite 2)) = Inr res
         \<and> int (length (users res)) = 1 \<and> ranked_response.totalCount res = 3
         \<and> currentPage res = 2 \<and> totalPages res = 2 \<and> \<not> hasMore res"
    using getRankedUsers_pagination [OF h, of 2 2] by (auto simp add: len c2)
  have b: "\<exists>e. fst (getRankedUsers example_store (Finite 2) (Finite 10)) = Inl e
         \<and> getStatus e = NOT_FOUND"
    using getRankedUsers_pagination [OF h, of 2 10] by (auto simp add: len c10)
  from h a b show ?thesis by blast
qed

text \<open>
  C2, as the code has it. Every list the listing returns and every list the search
  returns is in the order \<open>ranked_desc\<close>: of two records that follow each other, the
  first has the higher level, or both have the same level and either the first has no
  experience, or both have one and that of the first is not below that of the second.
\<close>

theorem results_ranked:
  "(fst (getRankedUsers st page pageSize) = Inr res \<longrightarrow> successively ranked_desc (users res))
   \<and> (fst (searchUsersByKeyword st kw) = Inr found \<longrightarrow>
        successively ranked_desc (searchResults found))"
  using getRankedUsers_ranked searchUsersByKeyword_ranked by blast

theorem results_ranked_witness:
  "(\<exists>res. fst (getRankedUsers example_store (Finite 1) (Finite 10)) = Inr res
       \<and> successively ranked_desc (users res)
       \<and> map level_of (users res) = [Some 50, Some 50, Some 40]
       \<and> map exp_of (users res) = [Some 200, Some 100, Some 999])
   \<and> (\<exists>res. fst (getRankedUsers null_exp_store (Finite 1) (Finite 10)) = Inr res
       \<and> successively ranked_desc (users res)
       \<and> map level_of (users res) = [Some 50, Some 50]
       \<and> map exp_of (users res) = [None, Some 200])
   \<and> (\<exists>found. fst (searchUsersByKeyword example_store ''AR'') = Inr found
       \<and> successively ranked_desc (searchResults found)
       \<and> map level_of (searchResults found) = [Some 40])"
proof -
  let ?l = "fst (getRankedUsers example_store (Finite 1) (Finite 10))"
  let ?n = "fst (getRankedUsers null_exp_store (Finite 1) (Finite 10))"
  let ?s = "fst (searchUsersByKeyword example_store ''AR'')"
  have l: "?l = Inr (projr ?l)" by code_simp
  have n: "?n = Inr (projr ?n)" by code_simp
  have s: "?s = Inr (projr ?s)" by code_simp
  have lv: "map level_of (users (projr ?l)) = [Some 50, Some 50, Some 40]"
    "map exp_of (users (projr ?l)) = [Some 200, Some 100, Some 999]"
    by code_simp+
  have nv: "map level_of (users (projr ?n)) = [Some 50, Some 50]"
    "map exp_of (users (projr ?n)) = [None, Some 200]"
    by code_simp+
  have sv: "map level_of (searchResults (projr ?s)) = [Some 40]" by code_simp
  from results_ranked [of example_store "Finite 1" "Finite 10" "projr ?l" "''AR''" "projr ?s"]
    l s
  have r: "successively ranked_desc (users (projr ?l))"
    "successively ranked_desc (searchResults (projr ?s))" by blast+
  from results_ranked [of null_exp_store "Finite 1" "Finite 10" "projr ?n"] n
  have rn: "successively ranked_desc (users (projr ?n))" by blast
  show ?thesis
    by (intro conjI exI [of _ "projr ?l"] exI [of _ "projr ?n"] exI [of _ "projr ?s"]
        l n s r rn lv nv sv)
qed

text \<open>
  A row without experience stands before the row of its level that has the experience
  200: the store puts null first in a descending order. The relation the claim writes
  down fails on this pair, whether the comparison asks for two numbers or takes null as
  0 as the source language does.
\<close>

theorem results_ranked_null_exp_counterexample:
  "fst (getRankedUsers null_exp_store (Finite 1) (Finite 10)) =
     Inr (projr (fst (getRankedUsers null_exp_store (Finite 1) (Finite 10))))
   \<and> map level_of (users (projr (fst (getRankedUsers null_exp_store (Finite 1) (Finite 10)))))
       = [Some 50, Some 50]
   \<and> map exp_of (users (projr (fst (getRankedUsers null_exp_store (Finite 1) (Finite 10)))))
       = [None, Some 200]
   \<and> \<not> successively (claimed_desc number_ge)
         (users (projr (fst (getRankedUsers null_exp_store (Finite 1) (Finite 10)))))
   \<and> \<not> successively (claimed_desc coerced_ge)
         (users (projr (fst (getRankedUsers null_exp_store (Finite 1) (Finite 10)))))"
  by (intro conjI; code_simp)

text \<open>
  C3. On a store that answers and has no row, for a page \<open>p \<ge> 1\<close> and a page size
  \<open>1 \<le> s \<le> 1000\<close>, the listing returns the empty list with total count 0, the page
  asked for, 0 pages and \<open>hasMore = False\<close>, whatever the page, and the count is the
  only call it makes to the store.
\<close>

theorem getRankedUsers_empty_store:
  assumes "rows st = []" and "faults st = []"
    and "1 \<le> p" and "1 \<le> s" and "s \<le> 1000"
  shows "getRankedUsers st (Finite (of_int p)) (Finite (of_int s)) =
           (Inr \<lparr>users = [], totalCount = 0, currentPage = p, totalPages = 0, hasMore = False\<rparr>,
            st\<lparr>calls := calls st @ [Count]\<rparr>)"
  using assms
  by (simp add: getRankedUsers_def validatePageParams_ints count_ok buildRankedUsersResponse_def)

theorem getRankedUsers_empty_store_witness:
  "rows empty_store = [] \<and> faults empty_store = []
   \<and> getRankedUsers empty_store (Finite 7) (Finite 10) =
        (Inr \<lparr>users = [], totalCount = 0, currentPage = 7, totalPages = 0, hasMore = False\<rparr>,
         empty_store\<lparr>calls := [Count]\<rparr>)"
proof -
  have h: "rows empty_store = []" "faults empty_store = []"
    by (simp_all add: empty_store_def)
  have c: "calls empty_store = []" by (simp add: empty_store_def)
  show ?thesis
    using h getRankedUsers_empty_store [OF h, of 7 10] by (simp add: c)
qed

text \<open>
  C4. The listing fails with \<open>BAD_REQUEST\<close> exactly when the page is not a positive
  integer or the page size is not an integer from 1 to 1000; it then leaves the store as
  it was, so no call has been made. The page sizes 0 and 1001 are rejected so, whatever
  the page.
\<close>

theorem getRankedUsers_invalid_argument:
  "((\<exists>e. fst (getRankedUsers st page pageSize) = Inl e \<and> getStatus e = BAD_REQUEST)
      \<longleftrightarrow> \<not> positive_integer page \<or> \<not> integer_between 1 1000 pageSize)
   \<and> (\<not> positive_integer page \<or> \<not> integer_between 1 1000 pageSize
        \<longrightarrow> snd (getRankedUsers st page pageSize) = st)
   \<and> (\<exists>e. getRankedUsers st page (Finite 0) = (Inl e, st) \<and> getStatus e = BAD_REQUEST)
   \<and> (\<exists>e. getRankedUsers st page (Finite 1001) = (Inl e, st) \<and> getStatus e = BAD_REQUEST)"
proof -
  let ?bad = "\<not> positive_integer page \<or> \<not> integer_between 1 1000 pageSize"
  have a: "(\<exists>e. fst (getRankedUsers st page pageSize) = Inl e \<and> getStatus e = BAD_REQUEST)
      \<longleftrightarrow> ?bad"
  proof
    assume "\<exists>e. fst (getRankedUsers st page pageSize) = Inl e \<and> getStatus e = BAD_REQUEST"
    then have "validatePageParams page pageSize \<noteq> None"
      using getRankedUsers_valid_status by blast
    then show ?bad by (simp add: validatePageParams_None_iff)
  next
    assume ?bad
    then have "validatePageParams page pageSize \<noteq> None"
      by (simp add: validatePageParams_None_iff)
    from getRankedUsers_rejected [OF this, where st = st] show
      "\<exists>e. fst (getRankedUsers st page pageSize) = Inl e \<and> getStatus e = BAD_REQUEST"
      by auto
  qed
  have b: "?bad \<longrightarrow> snd (getRankedUsers st page pageSize) = st"
  proof
    assume ?bad
    then have "validatePageParams page pageSize \<noteq> None"
      by (simp add: validatePageParams_None_iff)
    from getRankedUsers_rejected [OF this, where st = st]
    show "snd (getRankedUsers st page pageSize) = st"
      by auto
  qed
  have "\<not> integer_between 1 1000 (Finite 0)"
    by (auto simp: integer_between_def)
  then have c: "validatePageParams page (Finite 0) \<noteq> None"
    by (simp add: validatePageParams_None_iff)
  have "\<not> integer_between 1 1000 (Finite 1001)"
  proof
    assume "integer_between 1 1000 (Finite 1001)"
    then obtain k :: int where "rat_of_int k = 1001" "k \<le> 1000"
      by (auto simp: integer_between_def)
    then show False by simp
  qed
  then have d: "validatePageParams page (Finite 1001) \<noteq> None"
    by (simp add: validatePageParams_None_iff)
  from a b getRankedUsers_rejected [OF c, where st = st]
    getRankedUsers_rejected [OF d, where st = st]
  show ?thesis by blast
qed

theorem getRankedUsers_invalid_argument_witness:
  "\<not> positive_integer (Finite 0)
   \<and> snd (getRankedUsers example_store (Finite 0) (Finite 10)) = example_store
   \<and> (\<exists>e. fst (getRankedUsers example_store (Finite 0) (Finite 10)) = Inl e
         \<and> getStatus e = BAD_REQUEST)
   \<and> \<not> integer_between 1 1000 (Finite (3 / 2))
   \<and> (\<exists>e. fst (getRankedUsers example_store (Finite 1) (Finite (3 / 2))) = Inl e
         \<and> getStatus e = BAD_REQUEST)"
proof -
  have h: "\<not> positive_integer (Finite 0)"
    by (simp add: positive_integer_def)
  have "rat_of_int k \<noteq> 3 / 2" for k
  proof
    assume "rat_of_int k = 3 / 2"
    then have "rat_of_int (2 * k) = rat_of_int 3" by simp
    then have "2 * k = 3" by (simp only: of_int_eq_iff)
    then show False by presburger
  qed
  then have g: "\<not> integer_between 1 1000 (Finite (3 / 2))"
    by (simp add: integer_between_def)
  show ?thesis
    using h g getRankedUsers_invalid_argument [of example_store "Finite 0" "Finite 10"]
      getRankedUsers_invalid_argument [of example_store "Finite 1" "Finite (3 / 2)"]
    by blast
qed

text \<open>
  C5. The search fails with \<open>BAD_REQUEST\<close> exactly when the keyword is rejected: empty
  after trimming, or of trimmed length below 2 or above 30, or with a forbidden character
  in the trimmed keyword. It then leaves the store as it was, and the message names the
  first reason that applies. Every other keyword makes the search call \<open>findMany\<close>.
\<close>

theorem searchUsersByKeyword_invalid_argument:
  "((\<exists>e. fst (searchUsersByKeyword st kw) = Inl e \<and> getStatus e = BAD_REQUEST)
      \<longleftrightarrow> keyword_rejected kw)
   \<and> (keyword_rejected kw \<longrightarrow> snd (searchUsersByKeyword st kw) = st)
   \<and> (\<not> keyword_rejected kw \<longrightarrow>
        calls (snd (searchUsersByKeyword st kw)) = calls st @ [FindMany])
   \<and> (trim kw = [] \<longrightarrow>
        fst (searchUsersByKeyword st kw) =
          Inl (HttpException (Text ''Search keyword cannot be empty'') BAD_REQUEST))
   \<and> (length (trim kw) = 1 \<longrightarrow>
        fst (searchUsersByKeyword st kw) =
          Inl (HttpException (Text ''Search keyword must be at least 2 characters long'')
                 BAD_REQUEST))
   \<and> (length (trim kw) > 30 \<longrightarrow>
        fst (searchUsersByKeyword st kw) =
          Inl (HttpException (Text ''Search keyword cannot exceed 30 characters'') BAD_REQUEST))
   \<and> (2 \<le> length (trim kw) \<and> length (trim kw) \<le> 30
        \<and> (\<exists>c\<in>set (trim kw). c \<in> forbidden_chars) \<longrightarrow>
        fst (searchUsersByKeyword st kw) =
          Inl (HttpException (Text ''Search keyword contains invalid characters'') BAD_REQUEST))"
proof -
  have rej: "\<exists>e. searchUsersByKeyword st kw = (Inl e, st) \<and> getStatus e = BAD_REQUEST"
    if "keyword_rejected kw"
  proof -
    from that obtain e where e: "validateKeyword kw = Some e"
      using validateKeyword_None_iff [of kw] by auto
    from searchUsersByKeyword_rejected [OF e, of st] validateKeyword_status [OF e]
    show ?thesis by simp
  qed
  have a: "(\<exists>e. fst (searchUsersByKeyword st kw) = Inl e \<and> getStatus e = BAD_REQUEST)
      \<longleftrightarrow> keyword_rejected kw"
  proof
    assume "\<exists>e. fst (searchUsersByKeyword st kw) = Inl e \<and> getStatus e = BAD_REQUEST"
    then obtain e where e: "fst (searchUsersByKeyword st kw) = Inl e" "getStatus e = BAD_REQUEST"
      by auto
    show "keyword_rejected kw"
    proof (rule ccontr)
      assume "\<not> keyword_rejected kw"
      then have "validateKeyword kw = None" by (simp add: validateKeyword_None_iff)
      from searchUsersByKeyword_valid(2) [OF this e(1)] e(2) show False by simp
    qed
  next
    assume "keyword_rejected kw"
    from rej [OF this]
    show "\<exists>e. fst (searchUsersByKeyword st kw) = Inl e \<and> getStatus e = BAD_REQUEST" by auto
  qed
  have b: "keyword_rejected kw \<longrightarrow> snd (searchUsersByKeyword st kw) = st"
    using rej by auto
  have c: "\<not> keyword_rejected kw \<longrightarrow>
        calls (snd (searchUsersByKeyword st kw)) = calls st @ [FindMany]"
    using searchUsersByKeyword_valid(1) by (simp add: validateKeyword_None_iff)
  have d: "validateKeyword kw = Some e \<Longrightarrow> fst (searchUsersByKeyword st kw) = Inl e" for e
    by (simp add: searchUsersByKeyword_rejected)
  from a b c d validateKeyword_messages [of kw] show ?thesis by simp
qed

theorem searchUsersByKeyword_invalid_argument_witness:
  "keyword_rejected ''<script>''
   \<and> searchUsersByKeyword example_store ''<script>'' =
       (Inl (HttpException (Text ''Search keyword contains invalid characters'') BAD_REQUEST),
        example_store)
   \<and> length (trim '' a '') = 1
   \<and> fst (searchUsersByKeyword example_store '' a '') =
       Inl (HttpException (Text ''Search keyword must be at least 2 characters long'')
              BAD_REQUEST)
   \<and> \<not> keyword_rejected '' ab ''
   \<and> calls (snd (searchUsersByKeyword example_store '' ab '')) = [FindMany]"
proof -
  have k1: "keyword_rejected ''<script>''" by code_simp
  have k1': "2 \<le> length (trim ''<script>'') \<and> length (trim ''<script>'') \<le> 30
       \<and> (\<exists>c\<in>set (trim ''<script>''). c \<in> forbidden_chars)" by code_simp
  have k2: "length (trim '' a '') = 1" by code_simp
  have k3: "\<not> keyword_rejected '' ab ''" by code_simp
  have c: "calls example_store = []" by (simp add: example_store_def)
  note t1 = searchUsersByKeyword_invalid_argument [of example_store "''<script>''"]
  note t2 = searchUsersByKeyword_invalid_argument [of example_store "'' a ''"]
  note t3 = searchUsersByKeyword_invalid_argument [of example_store "'' ab ''"]
  have a: "searchUsersByKeyword example_store ''<script>'' =
       (Inl (HttpException (Text ''Search keyword contains invalid characters'') BAD_REQUEST),
        example_store)"
    using t1 k1 k1' by (simp add: prod_eq_iff)
  have b: "fst (searchUsersByKeyword example_store '' a '') =
       Inl (HttpException (Text ''Search keyword must be at least 2 characters long'')
              BAD_REQUEST)"
    using t2 k2 by blast
  have d: "calls (snd (searchUsersByKeyword example_store '' ab '')) = [FindMany]"
    using t3 k3 c by simp
  show ?thesis by (intro conjI k1 a k2 b k3 d)
qed

text \<open>
  C6. For a keyword that passes validation, on a store that answers, the search returns
  the first 50 records, in the order of the ranking, of the rows whose identifier or
  display name contains the trimmed keyword with the case of letters ignored: every
  record returned is such a row, and all such rows are returned when there are at most
  50. Its \<open>totalCount\<close> is the length of the list returned, which is 50 when more than
  50 rows match, and its \<open>keyword\<close> is the trimmed keyword.
\<close>

theorem searchUsersByKeyword_result:
  assumes "2 \<le> length (trim kw)" and "length (trim kw) \<le> 30"
    and "\<forall>c\<in>set (trim kw). c \<notin> forbidden_chars"
    and "faults st = []"
  defines "matching \<equiv> filter (keyword_matches (trim kw)) (rows st)"
  shows "\<exists>res. fst (searchUsersByKeyword st kw) = Inr res
    \<and> searchResults res =
        map (select_columns search_select) (take 50 (orderBy level_exp_desc matching))
    \<and> set (searchResults res) \<subseteq> select_columns search_select ` set matching
    \<and> (length matching \<le> 50 \<longrightarrow>
         set (searchResults res) = select_columns search_select ` set matching)
    \<and> length (searchResults res) = min 50 (length matching)
    \<and> search_response.totalCount res = int (length (searchResults res))
    \<and> keyword res = trim kw"
proof -
  let ?top = "take 50 (orderBy level_exp_desc matching)"
  have v: "validateKeyword kw = None"
    using assms(1-3) by (rule validateKeyword_ok)
  have m: "filter (matches_where (keyword_where (trim kw))) (rows st) = matching"
    unfolding matching_def
    by (rule filter_cong) (simp_all add: matches_keyword del: matches.simps)
  have res: "fst (searchUsersByKeyword st kw) =
      Inr \<lparr>searchResults = map (select_columns search_select) ?top,
            totalCount = int (length (map (select_columns search_select) ?top)),
            keyword = trim kw\<rparr>"
    using v assms(4) by (simp add: searchUsersByKeyword_def findMany_ok m)
  let ?found = "map (select_columns search_select) ?top"
  have "set ?top \<subseteq> set (orderBy level_exp_desc matching)" by (rule set_take_subset)
  then have "set ?top \<subseteq> set matching" by (simp add: set_orderBy)
  then have sub: "set ?found \<subseteq> select_columns search_select ` set matching"
    by auto
  have all: "set ?found = select_columns search_select ` set matching"
    if "length matching \<le> 50"
    using that by (simp add: length_orderBy set_orderBy)
  have len: "length ?found = min 50 (length matching)"
    by (simp add: length_orderBy min.commute)
  show ?thesis
  proof (intro exI conjI impI)
    show "fst (searchUsersByKeyword st kw) =
      Inr \<lparr>searchResults = ?found, totalCount = int (length ?found), keyword = trim kw\<rparr>"
      by (rule res)
  qed (use sub all len in simp_all)
qed

theorem searchUsersByKeyword_result_witness:
  "2 \<le> length (trim '' ID '') \<and> length (trim '' ID '') \<le> 30
   \<and> faults crowded_store = []
   \<and> length (filter (keyword_matches ''ID'') (rows crowded_store)) = 51
   \<and> (\<exists>res. fst (searchUsersByKeyword crowded_store '' ID '') = Inr res
         \<and> length (searchResults res) = 50
         \<and> search_response.totalCount res = 50
         \<and> keyword res = ''ID'')
   \<and> faults accented_store = []
   \<and> (\<exists>res. fst (searchUsersByKeyword accented_store (CHR 0xE9 # ''mi'')) = Inr res
         \<and> map (\<lambda>r. map_of r Col_userId) (searchResults res)
             = [Some (JsString (CHR 0xC9 # ''mile''))]
         \<and> search_response.totalCount res = 1)"
proof -
  have t: "trim '' ID '' = ''ID''" by code_simp
  have h1: "2 \<le> length (trim '' ID '')" "length (trim '' ID '') \<le> 30"
    by (simp_all add: t)
  have h2: "\<forall>c\<in>set (trim '' ID ''). c \<notin> forbidden_chars"
    unfolding t by code_simp
  have h3: "faults crowded_store = []" by (simp add: crowded_store_def)
  have n: "length (filter (keyword_matches ''ID'') (rows crowded_store)) = 51"
    unfolding crowded_rows_match by (simp add: crowded_store_def del: digits.simps)
  have a: "\<exists>res. fst (searchUsersByKeyword crowded_store '' ID '') = Inr res
         \<and> length (searchResults res) = 50
         \<and> search_response.totalCount res = 50
         \<and> keyword res = ''ID''"
    using searchUsersByKeyword_result [OF h1 h2 h3] n unfolding t by auto
  let ?k = "CHR 0xE9 # ''mi''"
  let ?row = "example_user (CHR 0xC9 # ''mile'') ''E'' 10 (Some 1)"
  have tk: "trim ?k = ?k" by code_simp
  have g1: "2 \<le> length (trim ?k)" "length (trim ?k) \<le> 30"
    by (simp_all add: tk)
  have g2: "\<forall>c\<in>set (trim ?k). c \<notin> forbidden_chars"
    unfolding tk by code_simp
  have g3: "faults accented_store = []" by (simp add: accented_store_def)
  have m: "filter (keyword_matches ?k) (rows accented_store) = [?row]"
    unfolding matches_keyword [symmetric] by code_simp
  have o: "take 50 (orderBy level_exp_desc [?row]) = [?row]"
    by (simp add: orderBy_def)
  have u: "map_of (select_columns search_select ?row) Col_userId
             = Some (JsString (CHR 0xC9 # ''mile''))"
    by (simp add: select_columns_def search_select_def example_user_def)
  have b: "\<exists>res. fst (searchUsersByKeyword accented_store ?k) = Inr res
         \<and> map (\<lambda>r. map_of r Col_userId) (searchResults res)
             = [Some (JsString (CHR 0xC9 # ''mile''))]
         \<and> search_response.totalCount res = 1"
    using searchUsersByKeyword_result [OF g1 g2 g3] unfolding tk m o
    by (auto simp: u)
  from h1 h3 n a g3 b show ?thesis by (intro conjI)
qed

text \<open>
  C7. For an identifier that passes validation, on a store that answers and whose rows
  have distinct identifiers: when no row has the identifier, the deletion fails with
  \<open>NOT_FOUND\<close> and the rows are as before; when a row has it, the deletion succeeds with
  a message that names the identifier, that row is gone and every other row is where it
  was, and deleting the same identifier again fails with \<open>NOT_FOUND\<close>.
\<close>

theorem deleteUserByUserId_behaviour:
  assumes "uid \<noteq> []" and "length uid \<le> 30" and "\<forall>c\<in>set uid. c \<notin> forbidden_chars"
    and "faults st = []" and "distinct (map userId (rows st))"
  shows "(uid \<notin> userId ` set (rows st) \<longrightarrow>
           (\<exists>e st'. deleteUserByUserId st uid = (Inl e, st') \<and> getStatus e = NOT_FOUND
              \<and> rows st' = rows st))
    \<and> (uid \<in> userId ` set (rows st) \<longrightarrow>
           (\<exists>res st'. deleteUserByUserId st uid = (Inr res, st')
              \<and> success res
              \<and> message res = ''User with userId '' @ uid @ '' has been deleted.''
              \<and> (\<exists>before u after. rows st = before @ u # after \<and> userId u = uid
                    \<and> rows st' = before @ after)
              \<and> (\<exists>e st''. deleteUserByUserId st' uid = (Inl e, st'')
                    \<and> getStatus e = NOT_FOUND \<and> rows st'' = rows st')))"
proof -
  have v: "validateUserId uid = None"
    using assms(1-3) by (rule validateUserId_ok)
  have absent: "\<exists>e st'. deleteUserByUserId s uid = (Inl e, st') \<and> getStatus e = NOT_FOUND
              \<and> rows st' = rows s"
    if "faults s = []" "uid \<notin> userId ` set (rows s)" for s
    using deleteUserByUserId_absent [OF v that] by simp
  have present: "\<exists>res st'. deleteUserByUserId st uid = (Inr res, st')
              \<and> success res
              \<and> message res = ''User with userId '' @ uid @ '' has been deleted.''
              \<and> (\<exists>before u after. rows st = before @ u # after \<and> userId u = uid
                    \<and> rows st' = before @ after)
              \<and> (\<exists>e st''. deleteUserByUserId st' uid = (Inl e, st'')
                    \<and> getStatus e = NOT_FOUND \<and> rows st'' = rows st')"
    if here: "uid \<in> userId ` set (rows st)"
  proof -
    let ?st' = "st\<lparr>calls := calls st @ [FindUnique, Delete],
               rows := filter (\<lambda>u. userId u \<noteq> uid) (rows st)\<rparr>"
    have f: "faults ?st' = []" using assms(4) by simp
    have gone: "uid \<notin> userId ` set (rows ?st')" by auto
    from filter_out_unique [OF assms(5) here]
    have split: "\<exists>before u after. rows st = before @ u # after \<and> userId u = uid
                    \<and> rows ?st' = before @ after" by simp
    from deleteUserByUserId_present [OF v assms(4) here] split absent [OF f gone]
    show ?thesis by simp
  qed
  from absent [OF assms(4)] present show ?thesis by blast
qed

theorem deleteUserByUserId_behaviour_witness:
  "faults example_store = [] \<and> distinct (map userId (rows example_store))
   \<and> ''bravo'' \<in> userId ` set (rows example_store)
   \<and> (\<exists>res st'. deleteUserByUserId example_store ''bravo'' = (Inr res, st')
         \<and> success res
         \<and> message res = ''User with userId bravo has been deleted.''
         \<and> (\<exists>e st''. deleteUserByUserId st' ''bravo'' = (Inl e, st'')
               \<and> getStatus e = NOT_FOUND \<and> rows st'' = rows st'))
   \<and> ''zulu'' \<notin> userId ` set (rows example_store)
   \<and> (\<exists>e st'. deleteUserByUserId example_store ''zulu'' = (Inl e, st')
         \<and> getStatus e = NOT_FOUND \<and> rows st' = rows example_store)"
proof -
  have f: "faults example_store = []" by (simp add: example_store_def)
  have d: "distinct (map userId (rows example_store))" by code_simp
  have b: "''bravo'' \<in> userId ` set (rows example_store)" by code_simp
  have z: "''zulu'' \<notin> userId ` set (rows example_store)" by code_simp
  have vb: "''bravo'' \<noteq> []" "length ''bravo'' \<le> 30" "\<forall>c\<in>set ''bravo''. c \<notin> forbidden_chars"
    by code_simp+
  have vz: "''zulu'' \<noteq> []" "length ''zulu'' \<le> 30" "\<forall>c\<in>set ''zulu''. c \<notin> forbidden_chars"
    by code_simp+
  have p: "\<exists>res st'. deleteUserByUserId example_store ''bravo'' = (Inr res, st')
         \<and> success res
         \<and> message res = ''User with userId bravo has been deleted.''
         \<and> (\<exists>e st''. deleteUserByUserId st' ''bravo'' = (Inl e, st'')
               \<and> getStatus e = NOT_FOUND \<and> rows st'' = rows st')"
    using deleteUserByUserId_behaviour [OF vb f d] b by auto
  have a: "\<exists>e st'. deleteUserByUserId example_store ''zulu'' = (Inl e, st')
         \<and> getStatus e = NOT_FOUND \<and> rows st' = rows example_store"
    using deleteUserByUserId_behaviour [OF vz f d] z by blast
  show ?thesis by (intro conjI f d b p z a)
qed

text \<open>
  C8, as the code has it. An exception that is already an \<^verbatim>\<open>HttpException\<close> passes
  through \<open>handleCommonErrors\<close> unchanged. Any other error becomes an exception with
  status \<open>INTERNAL_SERVER_ERROR\<close> and one of two fixed messages, so its detail never
  reaches the caller: the database message when the error has a code beginning with P,
  the message of an unexpected error otherwise. In each of the three operations:
  \<^item> a failed validation is returned as it is, with the store untouched, and in each
    validator the first rule that fails decides the message;
  \<^item> the \<open>NOT_FOUND\<close> of the operation reaches the caller with its own message (the
    page asked for and the number of pages; \<^verbatim>\<open>User not found\<close>);
  \<^item> a call to the store that fails, be it the first call or the one after it, makes
    the operation fail with the reclassified error, and a failed delete leaves the rows;
  \<^item> every failure is one of these: a failed validation, the \<open>NOT_FOUND\<close> of the
    operation, or a reclassified error of the store.
\<close>

theorem error_classification:
  fixes p s :: int
  shows
  "handleCommonErrors (Http h) = h
   \<and> handleCommonErrors (Err err) =
       (if P_coded err
        then HttpException (Text database_error_message) INTERNAL_SERVER_ERROR
        else HttpException (Text unexpected_error_message) INTERNAL_SERVER_ERROR)
   \<and> kind_of (handleCommonErrors (Err err)) =
       (if P_coded err then StorageUnavailable else Internal)
   \<and> (validatePageParams page pageSize = Some v \<longrightarrow>
        getRankedUsers st page pageSize = (Inl v, st))
   \<and> (validateKeyword kw = Some v \<longrightarrow> searchUsersByKeyword st kw = (Inl v, st))
   \<and> (validateUserId uid = Some v \<longrightarrow> deleteUserByUserId st uid = (Inl v, st))
   \<and> (\<not> positive_integer page \<longrightarrow>
        validatePageParams page pageSize =
          Some (HttpException (Text ''Page number must be a positive integer'') BAD_REQUEST))
   \<and> (positive_integer page \<and> \<not> integer_between 1 1000 pageSize \<longrightarrow>
        validatePageParams page pageSize =
          Some (HttpException (Text ''Page size must be an integer between 1 and 1000'')
                  BAD_REQUEST))
   \<and> (trim kw = [] \<longrightarrow>
        validateKeyword kw =
          Some (HttpException (Text ''Search keyword cannot be empty'') BAD_REQUEST))
   \<and> (length (trim kw) = 1 \<longrightarrow>
        validateKeyword kw =
          Some (HttpException (Text ''Search keyword must be at least 2 characters long'')
                  BAD_REQUEST))
   \<and> (length (trim kw) > 30 \<longrightarrow>
        validateKeyword kw =
          Some (HttpException (Text ''Search keyword cannot exceed 30 characters'')
                  BAD_REQUEST))
   \<and> (2 \<le> length (trim kw) \<and> length (trim kw) \<le> 30
        \<and> (\<exists>c\<in>set (trim kw). c \<in> forbidden_chars) \<longrightarrow>
        validateKeyword kw =
          Some (HttpException (Text ''Search keyword contains invalid characters'')
                  BAD_REQUEST))
   \<and> (uid = [] \<longrightarrow>
        validateUserId uid =
          Some (HttpException (Text ''Invalid userId format'') BAD_REQUEST))
   \<and> (uid \<noteq> [] \<and> length uid > 30 \<longrightarrow>
        validateUserId uid =
          Some (HttpException (Text ''UserId cannot exceed 30 characters'') BAD_REQUEST))
   \<and> (uid \<noteq> [] \<and> length uid \<le> 30 \<and> (\<exists>c\<in>set uid. c \<in> forbidden_chars) \<longrightarrow>
        validateUserId uid =
          Some (HttpException (Text ''UserId contains invalid characters'') BAD_REQUEST))
   \<and> (1 \<le> p \<and> 1 \<le> s \<and> s \<le> 1000 \<and> faults st = [] \<and> rows st \<noteq> []
        \<and> p > \<lceil>rat_of_nat (length (rows st)) / rat_of_int s\<rceil> \<longrightarrow>
        fst (getRankedUsers st (Finite (of_int p)) (Finite (of_int s))) =
          Inl (HttpException
                 (ErrorObject NOT_FOUND ''Page not found''
                    [Lit ''Page '', Num p, Lit '' does not exist. Total pages: '',
                     Num \<lceil>rat_of_nat (length (rows st)) / rat_of_int s\<rceil>])
                 NOT_FOUND))
   \<and> (validateUserId uid = None \<and> faults st = [] \<and> uid \<notin> userId ` set (rows st) \<longrightarrow>
        fst (deleteUserByUserId st uid) =
          Inl (HttpException (Text ''User not found'') NOT_FOUND))
   \<and> (validatePageParams page pageSize = None \<and> faults st = Some err # fs \<longrightarrow>
        fst (getRankedUsers st page pageSize) = Inl (handleCommonErrors (Err err)))
   \<and> (1 \<le> p \<and> 1 \<le> s \<and> s \<le> 1000 \<and> faults st = None # Some err # fs \<and> rows st \<noteq> []
        \<and> p \<le> \<lceil>rat_of_nat (length (rows st)) / rat_of_int s\<rceil> \<longrightarrow>
        fst (getRankedUsers st (Finite (of_int p)) (Finite (of_int s))) =
          Inl (handleCommonErrors (Err err)))
   \<and> (validateKeyword kw = None \<and> faults st = Some err # fs \<longrightarrow>
        fst (searchUsersByKeyword st kw) = Inl (handleCommonErrors (Err err)))
   \<and> (validateUserId uid = None \<and> faults st = Some err # fs \<longrightarrow>
        fst (deleteUserByUserId st uid) = Inl (handleCommonErrors (Err err)))
   \<and> (validateUserId uid = None \<and> faults st = None # Some err # fs
        \<and> uid \<in> userId ` set (rows st) \<longrightarrow>
        fst (deleteUserByUserId st uid) = Inl (handleCommonErrors (Err err))
        \<and> rows (snd (deleteUserByUserId st uid)) = rows st)
   \<and> (fst (getRankedUsers st page pageSize) = Inl e \<longrightarrow>
        validatePageParams page pageSize = Some e
        \<or> e = HttpException
                (ErrorObject NOT_FOUND ''Page not found''
                   [Lit ''Page '', Num (int_of page), Lit '' does not exist. Total pages: '',
                    Num \<lceil>rat_of_nat (length (rows st)) / rat_of_int (int_of pageSize)\<rceil>])
                NOT_FOUND
        \<or> reclassified st e)
   \<and> (fst (searchUsersByKeyword st kw) = Inl e \<longrightarrow>
        validateKeyword kw = Some e \<or> reclassified st e)
   \<and> (fst (deleteUserByUserId st uid) = Inl e \<longrightarrow>
        validateUserId uid = Some e
        \<or> e = HttpException (Text ''User not found'') NOT_FOUND
        \<or> reclassified st e)"
proof -
  have c1: "handleCommonErrors (Http h) = h"
    by (rule handleCommonErrors_Http)
  have c2: "handleCommonErrors (Err err) =
         (if P_coded err
          then HttpException (Text database_error_message) INTERNAL_SERVER_ERROR
          else HttpException (Text unexpected_error_message) INTERNAL_SERVER_ERROR)"
    by (rule handleCommonErrors_Err)
  have c3: "kind_of (handleCommonErrors (Err err)) =
         (if P_coded err then StorageUnavailable else Internal)"
    by (rule kind_of_handleCommonErrors_Err)
  have v1: "validatePageParams page pageSize = Some v \<longrightarrow>
          getRankedUsers st page pageSize = (Inl v, st)"
    by (simp add: getRankedUsers_rejected_eq)
  have v2: "validateKeyword kw = Some v \<longrightarrow> searchUsersByKeyword st kw = (Inl v, st)"
    by (simp add: searchUsersByKeyword_rejected)
  have v3: "validateUserId uid = Some v \<longrightarrow> deleteUserByUserId st uid = (Inl v, st)"
    by (simp add: deleteUserByUserId_rejected)
  have r1: "\<not> positive_integer page \<longrightarrow>
          validatePageParams page pageSize =
            Some (HttpException (Text ''Page number must be a positive integer'') BAD_REQUEST)"
    by (simp add: validatePageParams_first_rule)
  have r2: "positive_integer page \<and> \<not> integer_between 1 1000 pageSize \<longrightarrow>
          validatePageParams page pageSize =
            Some (HttpException (Text ''Page size must be an integer between 1 and 1000'')
                    BAD_REQUEST)"
    by (simp add: validatePageParams_second_rule)
  have r3: "trim kw = [] \<longrightarrow>
          validateKeyword kw =
            Some (HttpException (Text ''Search keyword cannot be empty'') BAD_REQUEST)"
    by (simp add: validateKeyword_messages(1))
  have r4: "length (trim kw) = 1 \<longrightarrow>
          validateKeyword kw =
            Some (HttpException (Text ''Search keyword must be at least 2 characters long'')
                    BAD_REQUEST)"
    by (simp add: validateKeyword_messages(2))
  have r5: "length (trim kw) > 30 \<longrightarrow>
          validateKeyword kw =
            Some (HttpException (Text ''Search keyword cannot exceed 30 characters'')
                    BAD_REQUEST)"
    by (simp add: validateKeyword_messages(3))
  have r6: "2 \<le> length (trim kw) \<and> length (trim kw) \<le> 30
          \<and> (\<exists>c\<in>set (trim kw). c \<in> forbidden_chars) \<longrightarrow>
          validateKeyword kw =
            Some (HttpException (Text ''Search keyword contains invalid characters'')
                    BAD_REQUEST)"
    by (simp add: validateKeyword_messages(4))
  have r7: "uid = [] \<longrightarrow>
          validateUserId uid =
            Some (HttpException (Text ''Invalid userId format'') BAD_REQUEST)"
    by (simp add: validateUserId_rules(1))
  have r8: "uid \<noteq> [] \<and> length uid > 30 \<longrightarrow>
          validateUserId uid =
            Some (HttpException (Text ''UserId cannot exceed 30 characters'') BAD_REQUEST)"
    by (simp add: validateUserId_rules(2))
  have r9: "uid \<noteq> [] \<and> length uid \<le> 30 \<and> (\<exists>c\<in>set uid. c \<in> forbidden_chars) \<longrightarrow>
          validateUserId uid =
            Some (HttpException (Text ''UserId contains invalid characters'') BAD_REQUEST)"
    by (simp add: validateUserId_rules(3))
  have n1: "1 \<le> p \<and> 1 \<le> s \<and> s \<le> 1000 \<and> faults st = [] \<and> rows st \<noteq> []
          \<and> p > \<lceil>rat_of_nat (length (rows st)) / rat_of_int s\<rceil> \<longrightarrow>
          fst (getRankedUsers st (Finite (of_int p)) (Finite (of_int s))) =
            Inl (HttpException
                   (ErrorObject NOT_FOUND ''Page not found''
                      [Lit ''Page '', Num p, Lit '' does not exist. Total pages: '',
                       Num \<lceil>rat_of_nat (length (rows st)) / rat_of_int s\<rceil>])
                   NOT_FOUND)"
    by (simp add: getRankedUsers_not_found)
  have n2: "validateUserId uid = None \<and> faults st = [] \<and> uid \<notin> userId ` set (rows st) \<longrightarrow>
          fst (deleteUserByUserId st uid) =
            Inl (HttpException (Text ''User not found'') NOT_FOUND)"
    by (simp add: deleteUserByUserId_absent)
  have f1: "validatePageParams page pageSize = None \<and> faults st = Some err # fs \<longrightarrow>
          fst (getRankedUsers st page pageSize) = Inl (handleCommonErrors (Err err))"
    by (simp add: getRankedUsers_first_fault)
  have f2: "1 \<le> p \<and> 1 \<le> s \<and> s \<le> 1000 \<and> faults st = None # Some err # fs \<and> rows st \<noteq> []
          \<and> p \<le> \<lceil>rat_of_nat (length (rows st)) / rat_of_int s\<rceil> \<longrightarrow>
          fst (getRankedUsers st (Finite (of_int p)) (Finite (of_int s))) =
            Inl (handleCommonErrors (Err err))"
    by (simp add: getRankedUsers_second_fault)
  have f3: "validateKeyword kw = None \<and> faults st = Some err # fs \<longrightarrow>
          fst (searchUsersByKeyword st kw) = Inl (handleCommonErrors (Err err))"
    by (simp add: searchUsersByKeyword_first_fault)
  have f4: "validateUserId uid = None \<and> faults st = Some err # fs \<longrightarrow>
          fst (deleteUserByUserId st uid) = Inl (handleCommonErrors (Err err))"
    by (simp add: deleteUserByUserId_first_fault)
  have f5: "validateUserId uid = None \<and> faults st = None # Some err # fs
          \<and> uid \<in> userId ` set (rows st) \<longrightarrow>
          fst (deleteUserByUserId st uid) = Inl (handleCommonErrors (Err err))
          \<and> rows (snd (deleteUserByUserId st uid)) = rows st"
    by (simp add: deleteUserByUserId_second_fault)
  have e1: "fst (getRankedUsers st page pageSize) = Inl e \<longrightarrow>
          validatePageParams page pageSize = Some e
          \<or> e = HttpException
                  (ErrorObject NOT_FOUND ''Page not found''
                     [Lit ''Page '', Num (int_of page), Lit '' does not exist. Total pages: '',
                      Num \<lceil>rat_of_nat (length (rows st)) / rat_of_int (int_of pageSize)\<rceil>])
                  NOT_FOUND
          \<or> reclassified st e"
    by (rule impI, erule getRankedUsers_failure)
  have e2: "fst (searchUsersByKeyword st kw) = Inl e \<longrightarrow>
          validateKeyword kw = Some e \<or> reclassified st e"
    by (rule impI, erule searchUsersByKeyword_failure)
  have e3: "fst (deleteUserByUserId st uid) = Inl e \<longrightarrow>
          validateUserId uid = Some e
          \<or> e = HttpException (Text ''User not found'') NOT_FOUND
          \<or> reclassified st e"
    by (rule impI, erule deleteUserByUserId_failure)
  show ?thesis
    by (intro conjI c1 c2 c3 v1 v2 v3 r1 r2 r3 r4 r5 r6 r7 r8 r9 n1 n2 f1 f2 f3 f4 f5 e1 e2 e3)
qed

theorem error_classification_witness:
  "P_coded coded_failure
   \<and> faults (failing_store coded_failure) = [Some coded_failure]
   \<and> validatePageParams (Finite 1) (Finite 10) = None
   \<and> fst (getRankedUsers (failing_store coded_failure) (Finite 1) (Finite 10)) =
       Inl (HttpException (Text ''An error occurred while accessing the database'')
              INTERNAL_SERVER_ERROR)
   \<and> \<not> positive_integer (Finite 0)
   \<and> getRankedUsers (failing_store coded_failure) (Finite 0) (Finite 0) =
       (Inl (HttpException (Text ''Page number must be a positive integer'') BAD_REQUEST),
        failing_store coded_failure)
   \<and> faults (late_failing_store coded_failure) = [None, Some coded_failure]
   \<and> fst (getRankedUsers (late_failing_store coded_failure) (Finite 1) (Finite 10)) =
       Inl (HttpException (Text ''An error occurred while accessing the database'')
              INTERNAL_SERVER_ERROR)
   \<and> validateUserId ''bravo'' = None
   \<and> ''bravo'' \<in> userId ` set (rows (late_failing_store coded_failure))
   \<and> fst (deleteUserByUserId (late_failing_store coded_failure) ''bravo'') =
       Inl (HttpException (Text ''An error occurred while accessing the database'')
              INTERNAL_SERVER_ERROR)
   \<and> rows (snd (deleteUserByUserId (late_failing_store coded_failure) ''bravo'')) =
       rows (late_failing_store coded_failure)
   \<and> fst (getRankedUsers example_store (Finite 2) (Finite 10)) =
       Inl (HttpException
              (ErrorObject NOT_FOUND ''Page not found''
                 [Lit ''Page '', Num 2, Lit '' does not exist. Total pages: '', Num 1])
              NOT_FOUND)"
proof -
  let ?st = "failing_store coded_failure"
  let ?late = "late_failing_store coded_failure"
  let ?v = "HttpException (Text ''Page number must be a positive integer'') BAD_REQUEST"
  let ?db = "HttpException (Text ''An error occurred while accessing the database'')
               INTERNAL_SERVER_ERROR"
  have p: "P_coded coded_failure" by (simp add: P_coded_def coded_failure_def)
  have f: "faults ?st = Some coded_failure # []" by (simp add: failing_store_def)
  have fl: "faults ?late = None # Some coded_failure # []"
    by (simp add: late_failing_store_def)
  have v: "validatePageParams (Finite 1) (Finite 10) = None"
    by (simp add: validatePageParams_def num_greater_def)
  have n: "\<not> positive_integer (Finite 0)" by (simp add: positive_integer_def)
  have vu: "validateUserId ''bravo'' = None" by code_simp
  have here: "''bravo'' \<in> userId ` set (rows ?late)" by code_simp
  have len: "length (rows ?late) = 3" "length (rows example_store) = 3"
    by (simp_all add: late_failing_store_def example_store_def example_rows_def)
  have c10: "\<lceil>3 / 10 :: rat\<rceil> = 1" by (rule ceiling_unique) simp_all
  have ne: "rows ?late \<noteq> []" "rows example_store \<noteq> []" "faults example_store = []"
    by (simp_all add: late_failing_store_def example_store_def example_rows_def)
  have db: "handleCommonErrors (Err coded_failure) = ?db"
    using error_classification [where err = coded_failure] p
    by (simp add: database_error_message_def)
  note t1 = error_classification [where st = ?st and err = coded_failure and fs = "[]"
      and page = "Finite 1" and pageSize = "Finite 10"]
  note t2 = error_classification [where st = ?st and page = "Finite 0" and pageSize = "Finite 0"
      and v = ?v]
  note t3 = error_classification [where st = ?late and err = coded_failure and fs = "[]"
      and p = 1 and s = 10 and uid = "''bravo''"]
  note t4 = error_classification [where st = example_store and p = 2 and s = 10]
  have a: "fst (getRankedUsers ?st (Finite 1) (Finite 10)) = Inl ?db"
    using t1 f v db by simp
  have b: "getRankedUsers ?st (Finite 0) (Finite 0) = (Inl ?v, ?st)"
    using t2 n by simp
  have c: "fst (getRankedUsers ?late (Finite 1) (Finite 10)) = Inl ?db"
    using t3 fl ne(1) db by (simp add: len c10)
  have d: "fst (deleteUserByUserId ?late ''bravo'') = Inl ?db"
    "rows (snd (deleteUserByUserId ?late ''bravo'')) = rows ?late"
    using t3 fl vu here db by simp_all
  have e: "fst (getRankedUsers example_store (Finite 2) (Finite 10)) =
       Inl (HttpException
              (ErrorObject NOT_FOUND ''Page not found''
                 [Lit ''Page '', Num 2, Lit '' does not exist. Total pages: '', Num 1])
              NOT_FOUND)"
    using t4 ne(2,3) by (simp add: len c10)
  from f fl show ?thesis by (intro conjI p v a n b vu here c d e) simp_all
qed

text \<open>
  The store may fail with an error that has no code, as when the database server cannot
  be reached. The failure comes from the store, and it is reported as an unexpected
  error, not as a database error.
\<close>

theorem store_failure_without_code_counterexample:
  "fst (count (failing_store uncoded_failure)) = Inl uncoded_failure
   \<and> fst (getRankedUsers (failing_store uncoded_failure) (Finite 1) (Finite 10)) =
       Inl (HttpException (Text ''An unexpected error occurred'') INTERNAL_SERVER_ERROR)
   \<and> kind_of (HttpException (Text ''An unexpected error occurred'') INTERNAL_SERVER_ERROR)
       = Internal"
  by (simp add: failing_store_def uncoded_failure_def count_def access_def getRankedUsers_def
      validatePageParams_def num_greater_def handleCommonErrors_def kind_of_def
      unexpected_error_message_def database_error_message_def)

text \<open>
  C9. The controller passes a parsed value of 0 on as the default: for the query strings
  \<^verbatim>\<open>page=0\<close> and \<^verbatim>\<open>pageSize=0\<close>, which \<open>parseInt\<close> reads as 0, the service is
  called with page 1 and page size 10 and answers with the first page, where the service
  called with 0 fails with \<open>BAD_REQUEST\<close>.
\<close>

theorem getRanked_zero_replaced:
  "parseInt (Some ''0'') = Finite 0
   \<and> getRanked example_store (Some ''0'') (Some ''0'') =
       getRankedUsers example_store (Finite 1) (Finite 10)
   \<and> fst (getRanked example_store (Some ''0'') (Some ''0'')) \<noteq>
       fst (getRankedUsers example_store (Finite 0) (Finite 0))
   \<and> fst (getRankedUsers example_store (Finite 0) (Finite 0)) =
       Inl (HttpException (Text ''Page number must be a positive integer'') BAD_REQUEST)
   \<and> fst (getRankedUsers example_store (Finite 1) (Finite 0)) =
       Inl (HttpException (Text ''Page size must be an integer between 1 and 1000'')
              BAD_REQUEST)"
  by code_simp

text \<open>
  C10. Every record the search returns has exactly the fields \<^verbatim>\<open>userId\<close>,
  \<^verbatim>\<open>nickname\<close>, \<^verbatim>\<open>level\<close>, \<^verbatim>\<open>job\<close>, \<^verbatim>\<open>jobCode\<close>, \<^verbatim>\<open>meso\<close>,
  \<^verbatim>\<open>playTime\<close>, \<^verbatim>\<open>exp\<close> and \<^verbatim>\<open>createdAt\<close>, without \<^verbatim>\<open>id\<close> and
  \<^verbatim>\<open>updatedAt\<close>; every record the listing returns has these fields and \<^verbatim>\<open>id\<close>
  and \<^verbatim>\<open>updatedAt\<close> as well.
\<close>

theorem result_shapes:
  "(fst (getRankedUsers st page pageSize) = Inr res \<longrightarrow>
      (\<forall>r\<in>set (users res).
         map fst r =
           [Col_id, Col_userId, Col_nickname, Col_level, Col_job, Col_jobCode, Col_meso,
            Col_playTime, Col_exp, Col_createdAt, Col_updatedAt]))
   \<and> (fst (searchUsersByKeyword st kw) = Inr found \<longrightarrow>
      (\<forall>r\<in>set (searchResults found).
         map fst r =
           [Col_userId, Col_nickname, Col_level, Col_job, Col_jobCode, Col_meso,
            Col_playTime, Col_exp, Col_createdAt]
         \<and> map_of r Col_id = None \<and> map_of r Col_updatedAt = None))"
proof -
  have a: "map fst r =
           [Col_id, Col_userId, Col_nickname, Col_level, Col_job, Col_jobCode, Col_meso,
            Col_playTime, Col_exp, Col_createdAt, Col_updatedAt]"
    if "fst (getRankedUsers st page pageSize) = Inr res" "r \<in> set (users res)" for r
    using getRankedUsers_keys [OF that] by (simp add: ranked_select_def)
  have b: "map fst r =
           [Col_userId, Col_nickname, Col_level, Col_job, Col_jobCode, Col_meso,
            Col_playTime, Col_exp, Col_createdAt]
         \<and> map_of r Col_id = None \<and> map_of r Col_updatedAt = None"
    if "fst (searchUsersByKeyword st kw) = Inr found" "r \<in> set (searchResults found)" for r
  proof -
    have k: "map fst r =
           [Col_userId, Col_nickname, Col_level, Col_job, Col_jobCode, Col_meso,
            Col_playTime, Col_exp, Col_createdAt]"
      using searchUsersByKeyword_keys [OF that] by (simp add: search_select_def)
    have "Col_id \<notin> fst ` set r" "Col_updatedAt \<notin> fst ` set r"
      unfolding set_map [symmetric] k by simp_all
    then show ?thesis using k by (simp add: map_of_eq_None_iff)
  qed
  from a b show ?thesis by blast
qed

theorem result_shapes_witness:
  "(\<exists>res. fst (getRankedUsers example_store (Finite 1) (Finite 10)) = Inr res
       \<and> length (users res) = 3
       \<and> (\<forall>r\<in>set (users res).
             map fst r =
               [Col_id, Col_userId, Col_nickname, Col_level, Col_job, Col_jobCode, Col_meso,
                Col_playTime, Col_exp, Col_createdAt, Col_updatedAt]))
   \<and> (\<exists>found. fst (searchUsersByKeyword example_store ''AR'') = Inr found
       \<and> length (searchResults found) = 1
       \<and> (\<forall>r\<in>set (searchResults found).
             map fst r =
               [Col_userId, Col_nickname, Col_level, Col_job, Col_jobCode, Col_meso,
                Col_playTime, Col_exp, Col_createdAt]
             \<and> map_of r Col_id = None \<and> map_of r Col_updatedAt = None))"
proof -
  let ?l = "fst (getRankedUsers example_store (Finite 1) (Finite 10))"
  let ?s = "fst (searchUsersByKeyword example_store ''AR'')"
  have l: "?l = Inr (projr ?l)" by code_simp
  have s: "?s = Inr (projr ?s)" by code_simp
  have n: "length (users (projr ?l)) = 3" "length (searchResults (projr ?s)) = 1"
    by code_simp+
  from result_shapes [of example_store "Finite 1" "Finite 10" "projr ?l" "''AR''" "projr ?s"]
    l s
  have r: "\<forall>r\<in>set (users (projr ?l)).
             map fst r =
               [Col_id, Col_userId, Col_nickname, Col_level, Col_job, Col_jobCode, Col_meso,
                Col_playTime, Col_exp, Col_createdAt, Col_updatedAt]"
    "\<forall>r\<in>set (searchResults (projr ?s)).
             map fst r =
               [Col_userId, Col_nickname, Col_level, Col_job, Col_jobCode, Col_meso,
                Col_playTime, Col_exp, Col_createdAt]
             \<and> map_of r Col_id = None \<and> map_of r Col_updatedAt = None"
    by blast+
  show ?thesis
    by (intro conjI exI [of _ "projr ?l"] exI [of _ "projr ?s"] l s n r)
qed

end
